theory Spec2Isabelle
  imports Main "HOL-Library.Char_ord" "HOL-Library.List_Lexorder" "HOL-Library.Sublist"
    "HOL-Library.AList" "HOL-Library.Word"
begin

section \<open>The files of a pose class\<close>

text \<open>
  \<^verbatim>\<open>BootstrapHelper\<close> (boostrap_helper.py) works on four places per pose class: the input
  folder \<^verbatim>\<open>data_set_folder/<class>\<close>, the output folder \<^verbatim>\<open>per_level_out_folder/<class>\<close>, the
  file \<^verbatim>\<open>csvs_out_folder/<class>.csv\<close> and the folder of annotated images
  \<^verbatim>\<open>pose_landmark_3d_image/<level>/<class>\<close>. Each is optional: \<open>None\<close> is a path that does
  not exist.

  A decoded image is what \<^verbatim>\<open>cv2.imread\<close> returns: an array of shape (height, width, 3) of
  bytes. A folder is the list of its entries in the order \<^verbatim>\<open>os.listdir\<close> gives them; every
  entry is a regular file. The input folder holds, for each entry, what \<^verbatim>\<open>cv2.imread\<close>
  returns for it (\<open>None\<close> for a file that does not decode). A CSV file is the list of rows
  that \<^verbatim>\<open>csv.reader\<close> yields for it (an empty line is the row \<open>[]\<close>), and a row written by
  \<^verbatim>\<open>writerow\<close> reads back as it was written.
\<close>

datatype error =
  FileNotFoundError | NotADirectoryError | IsADirectoryError
  | IndexError | AttributeError | AssertionError | cv2_error | Exception string

text \<open>
  A call returns, or raises with the files as they are at that moment, or reaches a path
  that leaves the folders of the class (an absolute name, a climb with \<^verbatim>\<open>..\<close>): what it does
  then is decided by parts of the file system that the state does not hold.
\<close>

datatype 'a outcome = Returns 'a | Raises error 'a | Leaves_folders

record frame =
  frame_height :: nat
  frame_width :: nat
  pixels :: "(8 word \<times> 8 word \<times> 8 word) list"

type_synonym folder = "(string \<times> frame) list"

type_synonym row = "string list"

record class_files =
  images_in :: "(string \<times> frame option) list option"
  images_out :: "folder option"
  csv :: "row list option"
  landmarks_3d :: "folder option"

type_synonym files = "string \<Rightarrow> class_files"

subsection \<open>Paths below a folder\<close>

text \<open>
  \<^verbatim>\<open>os.path.join(folder, name)\<close> is \<^verbatim>\<open>name\<close> itself when \<^verbatim>\<open>name\<close> starts with a slash, and
  \<^verbatim>\<open>folder/name\<close> otherwise, which the system walks component by component from the folder:
  an empty component and \<^verbatim>\<open>.\<close> stay, \<^verbatim>\<open>..\<close> climbs out, the name of an entry reaches that
  file (and nothing may follow a regular file), any other name is missing.
\<close>

primrec split_sep :: "string \<Rightarrow> string list" where
  "split_sep [] = [[]]"
| "split_sep (c # cs) =
     (if c = CHR ''/'' then [] # split_sep cs
      else (case split_sep cs of [] \<Rightarrow> [[c]] | w # ws \<Rightarrow> (c # w) # ws))"

datatype target = Entry string | Directory | Absent error | Outside

fun walk :: "string list \<Rightarrow> string list \<Rightarrow> target" where
  "walk entries [] = Directory"
| "walk entries (c # cs) =
     (if c = [] \<or> c = ''.'' then walk entries cs
      else if c = ''..'' then Outside
      else if c \<in> set entries then (if cs = [] then Entry c else Absent NotADirectoryError)
      else Absent FileNotFoundError)"

definition resolve :: "(string \<times> 'b) list option \<Rightarrow> string \<Rightarrow> target" where
  "resolve dir name =
     (if name \<noteq> [] \<and> hd name = CHR ''/'' then Outside
      else (case dir of
              None \<Rightarrow> Absent FileNotFoundError
            | Some es \<Rightarrow> walk (map fst es) (split_sep name)))"

text \<open>\<^verbatim>\<open>os.path.exists\<close> is true of a file and of a directory.\<close>

definition path_exists :: "(string \<times> 'b) list option \<Rightarrow> string \<Rightarrow> bool option" where
  "path_exists dir name =
     (case resolve dir name of
        Entry n \<Rightarrow> Some True
      | Directory \<Rightarrow> Some True
      | Absent e \<Rightarrow> Some False
      | Outside \<Rightarrow> None)"

text \<open>\<^verbatim>\<open>os.remove\<close> deletes a regular file and raises on anything else.\<close>

definition os_remove :: "folder option \<Rightarrow> string \<Rightarrow> folder option outcome" where
  "os_remove dir name =
     (case resolve dir name of
        Entry n \<Rightarrow> Returns (map_option (filter (\<lambda>e. fst e \<noteq> n)) dir)
      | Directory \<Rightarrow> Raises IsADirectoryError dir
      | Absent e \<Rightarrow> Raises e dir
      | Outside \<Rightarrow> Leaves_folders)"

section \<open>The constructor\<close>

text \<open>
  \<^verbatim>\<open>__init__\<close> lists the pose classes once: the entries of the data set folder that do not
  start with a dot, sorted. A class is named by that entry name from then on.
\<close>

definition startswith_dot :: "string \<Rightarrow> bool" where
  "startswith_dot n = (case n of [] \<Rightarrow> False | c # cs \<Rightarrow> c = CHR ''.'')"

definition pose_class_names :: "string list \<Rightarrow> string list" where
  "pose_class_names data_set_listing =
     sort (filter (\<lambda>d. \<not> startswith_dot d) data_set_listing)"

section \<open>align_images_and_csvs\<close>

text \<open>
  Lines 219 to 229: the CSV file is open for writing and every row read before is looked
  at in turn. \<^verbatim>\<open>image_names_in_csv\<close> and the rows written so far are the accumulators.
  The printing under \<^verbatim>\<open>print_removed_items\<close> changes no file and is left out.
\<close>

fun rewrite_rows ::
  "folder option \<Rightarrow> row list \<Rightarrow> string list \<Rightarrow> row list \<Rightarrow> (string list \<times> row list) outcome"
where
  "rewrite_rows dir [] image_names_in_csv written = Returns (image_names_in_csv, written)"
| "rewrite_rows dir ([] # rows) image_names_in_csv written =
     Raises IndexError (image_names_in_csv, written)"
| "rewrite_rows dir ((image_name # coords) # rows) image_names_in_csv written =
     (case path_exists dir image_name of
        None \<Rightarrow> Leaves_folders
      | Some found \<Rightarrow>
          if found
          then rewrite_rows dir rows (image_names_in_csv @ [image_name])
                 (written @ [image_name # coords])
          else rewrite_rows dir rows image_names_in_csv written)"

text \<open>Lines 232 to 237: the loop over the listing of the output folder.\<close>

fun remove_unlisted :: "string list \<Rightarrow> string list \<Rightarrow> folder option \<Rightarrow> folder option outcome" where
  "remove_unlisted image_names_in_csv [] dir = Returns dir"
| "remove_unlisted image_names_in_csv (image_name # listing) dir =
     (if image_name \<notin> set image_names_in_csv
      then (case os_remove dir image_name of
              Returns dir' \<Rightarrow> remove_unlisted image_names_in_csv listing dir'
            | Raises e dir' \<Rightarrow> Raises e dir'
            | Leaves_folders \<Rightarrow> Leaves_folders)
      else remove_unlisted image_names_in_csv listing dir)"

text \<open>The body of the loop over the classes, lines 203 to 237.\<close>

definition align_class :: "class_files \<Rightarrow> class_files outcome" where
  "align_class cf =
     (case csv cf of
        None \<Rightarrow> Raises FileNotFoundError cf
      | Some file_rows \<Rightarrow>
          (case rewrite_rows (images_out cf) (filter (\<lambda>row. length row \<noteq> 0) file_rows) [] [] of
             Leaves_folders \<Rightarrow> Leaves_folders
           | Raises e (names, written) \<Rightarrow> Raises e (cf\<lparr>csv := Some written\<rparr>)
           | Returns (image_names_in_csv, written) \<Rightarrow>
               (case images_out cf of
                  None \<Rightarrow> Raises FileNotFoundError (cf\<lparr>csv := Some written\<rparr>)
                | Some es \<Rightarrow>
                    (case remove_unlisted image_names_in_csv (map fst es) (Some es) of
                       Returns dir \<Rightarrow> Returns (cf\<lparr>csv := Some written, images_out := dir\<rparr>)
                     | Raises e dir \<Rightarrow> Raises e (cf\<lparr>csv := Some written, images_out := dir\<rparr>)
                     | Leaves_folders \<Rightarrow> Leaves_folders))))"

fun align_images_and_csvs :: "string list \<Rightarrow> files \<Rightarrow> files outcome" where
  "align_images_and_csvs [] fs = Returns fs"
| "align_images_and_csvs (pose_class_name # classes) fs =
     (case align_class (fs pose_class_name) of
        Returns cf \<Rightarrow> align_images_and_csvs classes (fs(pose_class_name := cf))
      | Raises e cf \<Rightarrow> Raises e (fs(pose_class_name := cf))
      | Leaves_folders \<Rightarrow> Leaves_folders)"

section \<open>remove_outliers\<close>

record sample =
  sample_class_name :: string
  sample_name :: string

record outlier =
  outlier_sample :: sample
  detected_class :: string
  all_classes :: "string list"

text \<open>
  A class name that is not the name of an entry makes the joined path walk somewhere else
  than into the folder of a class.
\<close>

definition entry_name :: "string \<Rightarrow> bool" where
  "entry_name n \<longleftrightarrow> n \<noteq> [] \<and> CHR ''/'' \<notin> set n \<and> n \<noteq> ''.'' \<and> n \<noteq> ''..''"

fun remove_outliers :: "outlier list \<Rightarrow> files \<Rightarrow> files outcome" where
  "remove_outliers [] fs = Returns fs"
| "remove_outliers (out # outliers) fs =
     (let c = sample_class_name (outlier_sample out) in
      if \<not> entry_name c then Leaves_folders
      else (case os_remove (images_out (fs c)) (sample_name (outlier_sample out)) of
              Returns dir \<Rightarrow> remove_outliers outliers (fs(c := (fs c)\<lparr>images_out := dir\<rparr>))
            | Raises e dir \<Rightarrow> Raises e fs
            | Leaves_folders \<Rightarrow> Leaves_folders))"

section \<open>bootstrap\<close>

text \<open>
  The collaborators that the module calls and does not define: the pose tracker of
  MediaPipe (\<open>None\<close> when it finds no body), the arithmetic and the printing of NumPy's
  floating point numbers, whose type \<open>'c\<close> is left open, the encoders of OpenCV (whether it
  has one for the extension of a file name), the drawing of MediaPipe, and
  \<^verbatim>\<open>draw_plot_landmarks_save\<close> of the module \<^verbatim>\<open>matplot_util\<close>, which may raise.
  \<^verbatim>\<open>np.str\<close> is the alias of \<^verbatim>\<open>str\<close> that NumPy had when the module was written.
\<close>

record 'c landmark =
  lmk_x :: 'c
  lmk_y :: 'c
  lmk_z :: 'c

record 'c collaborators =
  pose_process :: "frame \<Rightarrow> 'c landmark list option"
  mul :: "'c \<Rightarrow> nat \<Rightarrow> 'c"
  as_str :: "'c \<Rightarrow> string"
  has_encoder :: "string \<Rightarrow> bool"
  draw_landmarks :: "frame \<Rightarrow> 'c landmark list \<Rightarrow> frame"
  draw_plot_landmarks_save :: "string \<Rightarrow> string \<Rightarrow> error option"

text \<open>
  \<^verbatim>\<open>cv2.COLOR_BGR2RGB\<close> and \<^verbatim>\<open>cv2.COLOR_RGB2BGR\<close> are the same exchange of the first and
  the third channel.
\<close>

definition cvtColor :: "frame \<Rightarrow> frame" where
  "cvtColor f = f\<lparr>pixels := map (\<lambda>(c0, c1, c2). (c2, c1, c0)) (pixels f)\<rparr>"

text \<open>
  \<^verbatim>\<open>cv2.imread\<close> reads by the content of the file and returns \<^verbatim>\<open>None\<close> for a path that it
  cannot read. \<^verbatim>\<open>cv2.imwrite\<close> chooses the encoder by the extension of the name and raises
  \<^verbatim>\<open>cv2.error\<close> when it has none; with an encoder it stores the frame under the name,
  replacing a file of that name (\<open>store\<close>), and writes nothing when the folder does not
  exist. The names are those that \<^verbatim>\<open>os.listdir\<close> gave; line 95 appends \<^verbatim>\<open>.png\<close> to one.
\<close>

definition imread :: "(string \<times> frame option) list option \<Rightarrow> string \<Rightarrow> frame option" where
  "imread dir image_name =
     (case dir of
        None \<Rightarrow> None
      | Some es \<Rightarrow> (case map_of es image_name of None \<Rightarrow> None | Some decoded \<Rightarrow> decoded))"

definition store :: "folder option \<Rightarrow> string \<Rightarrow> frame \<Rightarrow> folder option" where
  "store dir image_name f = map_option (AList.update image_name f) dir"

definition imwrite ::
  "(string \<Rightarrow> bool) \<Rightarrow> folder option \<Rightarrow> string \<Rightarrow> frame \<Rightarrow> folder option outcome"
where
  "imwrite encoder dir image_name f =
     (if encoder image_name then Returns (store dir image_name f) else Raises cv2_error dir)"

definition writerow :: "row \<Rightarrow> row list option \<Rightarrow> row list option" where
  "writerow r file = Some ((case file of None \<Rightarrow> [] | Some written \<Rightarrow> written) @ [r])"

text \<open>The shape of \<^verbatim>\<open>np.array\<close> of a list of rows of one length.\<close>

definition np_shape :: "'c list list \<Rightarrow> nat list" where
  "np_shape arr = (case arr of [] \<Rightarrow> [0] | r # rs \<Rightarrow> [length arr, length r])"

definition bootstrap_internal ::
  "'c collaborators \<Rightarrow> string \<Rightarrow> string \<Rightarrow> class_files \<Rightarrow> class_files outcome"
where
  "bootstrap_internal ext image_name pose_class_name cf =
     (case imread (images_in cf) image_name of
        None \<Rightarrow> Raises AttributeError cf
      | Some input_frame \<Rightarrow>
          let pose_landmarks = pose_process ext (cvtColor input_frame);
              output_frame = cvtColor input_frame
          in (case imwrite (has_encoder ext) (images_out cf) image_name output_frame of
                Raises e dir \<Rightarrow> Raises e cf
              | Leaves_folders \<Rightarrow> Leaves_folders
              | Returns dir \<Rightarrow>
                  let cf1 = cf\<lparr>images_out := dir\<rparr>
                  in (case pose_landmarks of
                        None \<Rightarrow> Returns cf1
                      | Some lms \<Rightarrow>
                          let scaled =
                                map (\<lambda>lmk. [mul ext (lmk_x lmk) (frame_width output_frame),
                                           mul ext (lmk_y lmk) (frame_height output_frame),
                                           mul ext (lmk_z lmk) (frame_width output_frame)]) lms
                          in if np_shape scaled \<noteq> [33, 3] then Raises AssertionError cf1
                             else
                               let cf2 = cf1\<lparr>csv :=
                                           writerow (image_name # map (as_str ext) (concat scaled))
                                             (csv cf1)\<rparr>
                               in (case imwrite (has_encoder ext) (landmarks_3d cf2)
                                          (image_name @ ''.png'') (draw_landmarks ext input_frame lms) of
                                     Raises e dir \<Rightarrow> Raises e cf2
                                   | Leaves_folders \<Rightarrow> Leaves_folders
                                   | Returns dir \<Rightarrow>
                                       let cf3 = cf2\<lparr>landmarks_3d := dir\<rparr>
                                       in (case draw_plot_landmarks_save ext pose_class_name
                                                 image_name of
                                             None \<Rightarrow> Returns cf3
                                           | Some e \<Rightarrow> Raises e cf3)))))"

text \<open>Python's \<^verbatim>\<open>xs[:k]\<close>: a negative \<^verbatim>\<open>k\<close> counts from the end.\<close>

definition slice_to :: "'a list \<Rightarrow> int \<Rightarrow> 'a list" where
  "slice_to xs k = (if k < 0 then take (nat (int (length xs) + k)) xs else take (nat k) xs)"

text \<open>Lines 163 to 165.\<close>

definition image_names :: "int option \<Rightarrow> string list \<Rightarrow> string list" where
  "image_names per_pose_class_limit listing =
     (let names = sort (filter (\<lambda>n. \<not> startswith_dot n) listing)
      in case per_pose_class_limit of None \<Rightarrow> names | Some k \<Rightarrow> slice_to names k)"

fun bootstrap_images ::
  "'c collaborators \<Rightarrow> string \<Rightarrow> string list \<Rightarrow> class_files \<Rightarrow> class_files outcome"
where
  "bootstrap_images ext pose_class_name [] cf = Returns cf"
| "bootstrap_images ext pose_class_name (image_name # rest) cf =
     (case bootstrap_internal ext image_name pose_class_name cf of
        Returns cf' \<Rightarrow> bootstrap_images ext pose_class_name rest cf'
      | Raises e cf' \<Rightarrow> Raises e cf'
      | Leaves_folders \<Rightarrow> Leaves_folders)"

definition makedirs :: "'a list option \<Rightarrow> 'a list option" where
  "makedirs dir = (case dir of None \<Rightarrow> Some [] | Some es \<Rightarrow> Some es)"

text \<open>
  The body of the loop over the classes, lines 146 to 173: the folders are made when they
  are missing, the CSV file is opened for writing, which empties it, and only then is the
  input folder listed.
\<close>

definition bootstrap_class ::
  "'c collaborators \<Rightarrow> int option \<Rightarrow> string \<Rightarrow> class_files \<Rightarrow> class_files outcome"
where
  "bootstrap_class ext per_pose_class_limit pose_class_name cf =
     (let cf1 = cf\<lparr>landmarks_3d := makedirs (landmarks_3d cf),
                     images_out := makedirs (images_out cf),
                     csv := Some []\<rparr>
      in case images_in cf1 of
           None \<Rightarrow> Raises FileNotFoundError cf1
         | Some es \<Rightarrow>
             bootstrap_images ext pose_class_name
               (image_names per_pose_class_limit (map fst es)) cf1)"

fun bootstrap ::
  "'c collaborators \<Rightarrow> int option \<Rightarrow> string list \<Rightarrow> files \<Rightarrow> files outcome"
where
  "bootstrap ext per_pose_class_limit [] fs = Returns fs"
| "bootstrap ext per_pose_class_limit (pose_class_name # classes) fs =
     (case bootstrap_class ext per_pose_class_limit pose_class_name (fs pose_class_name) of
        Returns cf \<Rightarrow> bootstrap ext per_pose_class_limit classes (fs(pose_class_name := cf))
      | Raises e cf \<Rightarrow> Raises e (fs(pose_class_name := cf))
      | Leaves_folders \<Rightarrow> Leaves_folders)"

section \<open>Properties of the files\<close>

text \<open>
  The entries of a folder have distinct names, and a name is not empty, holds no slash and
  is neither \<^verbatim>\<open>.\<close> nor \<^verbatim>\<open>..\<close>. The rows that \<^verbatim>\<open>bootstrap\<close> writes start with such a name,
  since it takes them from a listing; \<open>tidy\<close> says so of the files of a class.
\<close>

definition well_formed :: "(string \<times> 'b) list \<Rightarrow> bool" where
  "well_formed es \<longleftrightarrow> distinct (map fst es) \<and> list_all entry_name (map fst es)"

definition plain_rows :: "row list \<Rightarrow> bool" where
  "plain_rows rows \<longleftrightarrow> list_all (\<lambda>r. r = [] \<or> entry_name (hd r)) rows"

definition tidy :: "class_files \<Rightarrow> bool" where
  "tidy cf \<longleftrightarrow>
     (case images_out cf of None \<Rightarrow> True | Some es \<Rightarrow> well_formed es) \<and>
     (case csv cf of None \<Rightarrow> True | Some rows \<Rightarrow> plain_rows rows)"

definition file_names :: "(string \<times> 'b) list option \<Rightarrow> string list" where
  "file_names dir = (case dir of None \<Rightarrow> [] | Some es \<Rightarrow> map fst es)"

text \<open>The first field of every row that has one.\<close>

definition names_in_csv :: "row list option \<Rightarrow> string list" where
  "names_in_csv file = (case file of None \<Rightarrow> [] | Some rows \<Rightarrow> concat (map (take 1) rows))"

definition names_equal_files :: "class_files \<Rightarrow> bool" where
  "names_equal_files cf \<longleftrightarrow>
     csv cf \<noteq> None \<and> images_out cf \<noteq> None \<and>
     set (names_in_csv (csv cf)) = set (file_names (images_out cf))"

text \<open>
  Rows and files correspond one to one: every row has a first field, the first fields are
  the file names, and no two rows share one.
\<close>

definition strict_bijection :: "class_files \<Rightarrow> bool" where
  "strict_bijection cf \<longleftrightarrow>
     names_equal_files cf \<and>
     (case csv cf of None \<Rightarrow> False | Some rows \<Rightarrow> [] \<notin> set rows) \<and>
     distinct (names_in_csv (csv cf)) \<and> distinct (file_names (images_out cf))"

text \<open>The folder \<open>dir'\<close> holds no name that \<open>dir\<close> does not hold.\<close>

definition shrinks :: "folder option \<Rightarrow> folder option \<Rightarrow> bool" where
  "shrinks dir dir' \<longleftrightarrow>
     (case dir of
        None \<Rightarrow> dir' = None
      | Some es \<Rightarrow> (case dir' of None \<Rightarrow> False | Some es' \<Rightarrow> set (map fst es') \<subseteq> set (map fst es)))"

text \<open>Two calls in succession: the second starts from the files that the first left.\<close>

definition align_twice :: "string list \<Rightarrow> files \<Rightarrow> files outcome" where
  "align_twice classes fs =
     (case align_images_and_csvs classes fs of
        Returns fs' \<Rightarrow> align_images_and_csvs classes fs'
      | Raises e fs' \<Rightarrow> align_images_and_csvs classes fs'
      | Leaves_folders \<Rightarrow> Leaves_folders)"

text \<open>The tracker finds a body in the image of that name.\<close>

definition detects :: "'c collaborators \<Rightarrow> class_files \<Rightarrow> string \<Rightarrow> bool" where
  "detects ext cf image_name =
     (case imread (images_in cf) image_name of
        None \<Rightarrow> False
      | Some input_frame \<Rightarrow> pose_process ext (cvtColor input_frame) \<noteq> None)"

text \<open>
  What the docstring of \<^verbatim>\<open>align_images_and_csvs\<close> promises, the intersection of the samples
  in the folder and in the CSV file: the rows that name an entry, and the entries that
  such a row names.
\<close>

definition kept_rows :: "folder \<Rightarrow> row list \<Rightarrow> row list" where
  "kept_rows es rows = filter (\<lambda>r. r \<noteq> [] \<and> hd r \<in> fst ` set es) rows"

definition kept_files :: "row list \<Rightarrow> folder \<Rightarrow> folder" where
  "kept_files rows es = filter (\<lambda>e. fst e \<in> hd ` set rows) es"

text \<open>The row of line 79: the image name, then the three scaled coordinates of each landmark.\<close>

definition landmark_row :: "'c collaborators \<Rightarrow> string \<Rightarrow> frame \<Rightarrow> 'c landmark list \<Rightarrow> row" where
  "landmark_row ext image_name f lms =
     image_name # map (as_str ext)
       (concat (map (\<lambda>lmk. [mul ext (lmk_x lmk) (frame_width f),
                              mul ext (lmk_y lmk) (frame_height f),
                              mul ext (lmk_z lmk) (frame_width f)]) lms))"

section \<open>Example files\<close>

text \<open>
  A data set with the one class \<^verbatim>\<open>squat\<close>. Before the alignment its output folder holds two
  images and a hidden file, and its CSV file a row for one of the images, an empty line
  and a row for an image that is gone.
\<close>

definition gray :: frame where
  "gray = \<lparr>frame_height = 1, frame_width = 1, pixels = [(1, 2, 3)]\<rparr>"

definition no_files :: class_files where
  "no_files = \<lparr>images_in = None, images_out = None, csv = None, landmarks_3d = None\<rparr>"

definition squat_before :: class_files where
  "squat_before = no_files
     \<lparr>images_out := Some [(''a.jpg'', gray), (''.DS_Store'', gray), (''b.jpg'', gray)],
      csv := Some [[''a.jpg'', ''1''], [], [''gone.jpg'', ''2'']]\<rparr>"

definition squat_after :: class_files where
  "squat_after = no_files
     \<lparr>images_out := Some [(''a.jpg'', gray)], csv := Some [[''a.jpg'', ''1'']]\<rparr>"

definition dataset :: "class_files \<Rightarrow> files" where
  "dataset cf = (\<lambda>c. no_files)(''squat'' := cf)"

definition squat_twice_listed :: class_files where
  "squat_twice_listed = no_files
     \<lparr>images_out := Some [(''a.jpg'', gray)],
      csv := Some [[''a.jpg'', ''1''], [''a.jpg'', ''2'']]\<rparr>"

text \<open>
  A CSV file whose row names the image \<^verbatim>\<open>b.jpg\<close> as \<^verbatim>\<open>./b.jpg\<close>, and the files after one and
  after two alignments; and a class whose CSV file is missing.
\<close>

definition squat_dotted :: class_files where
  "squat_dotted = no_files
     \<lparr>images_out := Some [(''b.jpg'', gray)], csv := Some [[''./b.jpg'', ''1'']]\<rparr>"

definition squat_dotted_once :: class_files where
  "squat_dotted_once = no_files\<lparr>images_out := Some [], csv := Some [[''./b.jpg'', ''1'']]\<rparr>"

definition squat_empty :: class_files where
  "squat_empty = no_files\<lparr>images_out := Some [], csv := Some []\<rparr>"


text \<open>
  Outliers to remove: the sample \<^verbatim>\<open>a.jpg\<close>, whose image is there, and the sample
  \<^verbatim>\<open>gone.jpg\<close>, whose image is not; and the files that such removals leave.
\<close>

definition outlier_of :: "string \<Rightarrow> outlier" where
  "outlier_of n =
     \<lparr>outlier_sample = \<lparr>sample_class_name = ''squat'', sample_name = n\<rparr>,
      detected_class = ''plank'', all_classes = [''plank'', ''squat'']\<rparr>"

definition squat_removed :: class_files where
  "squat_removed = no_files\<lparr>images_out := Some [], csv := Some [[''a.jpg'', ''1'']]\<rparr>"

definition squat_partly_removed :: class_files where
  "squat_partly_removed = no_files
     \<lparr>images_out := Some [(''.DS_Store'', gray), (''b.jpg'', gray)],
      csv := Some [[''a.jpg'', ''1''], [], [''gone.jpg'', ''2'']]\<rparr>"

text \<open>
  An input folder with two images and a hidden entry that is no image. The example tracker
  finds a body, of 33 landmarks, in the image of height 1 only; the other tracker returns
  a single landmark. The example codec has encoders for the extensions \<^verbatim>\<open>.jpg\<close> and
  \<^verbatim>\<open>.png\<close>.
\<close>

definition blank :: frame where
  "blank = \<lparr>frame_height = 2, frame_width = 1, pixels = [(0, 0, 0), (0, 0, 0)]\<rparr>"

definition squat_input :: class_files where
  "squat_input = no_files
     \<lparr>images_in := Some [(''b.jpg'', Some blank), (''.hidden'', None), (''a.jpg'', Some gray)]\<rparr>"

definition body :: "nat landmark list" where
  "body = replicate 33 \<lparr>lmk_x = 1, lmk_y = 2, lmk_z = 3\<rparr>"

definition tracker :: "nat collaborators" where
  "tracker =
     \<lparr>pose_process = (\<lambda>f. if frame_height f = 1 then Some body else None),
      mul = (\<lambda>c n. c * n),
      as_str = (\<lambda>c. replicate c CHR ''|''),
      has_encoder = (\<lambda>n. suffix ''.jpg'' n \<or> suffix ''.png'' n),
      draw_landmarks = (\<lambda>f lms. f),
      draw_plot_landmarks_save = (\<lambda>c n. None)\<rparr>"

definition other_tracker :: "nat collaborators" where
  "other_tracker = tracker\<lparr>pose_process := (\<lambda>f. Some [\<lparr>lmk_x = 1, lmk_y = 2, lmk_z = 3\<rparr>])\<rparr>"

text \<open>
  The files of the class as \<^verbatim>\<open>bootstrap\<close> has them when it starts on the images, after the
  image \<^verbatim>\<open>a.jpg\<close>, and after both images.
\<close>

definition squat_opened :: class_files where
  "squat_opened = squat_input\<lparr>images_out := Some [], csv := Some [], landmarks_3d := Some []\<rparr>"

definition squat_a_done :: class_files where
  "squat_a_done = squat_input
     \<lparr>images_out := Some [(''a.jpg'', cvtColor gray)],
      csv := Some [landmark_row tracker ''a.jpg'' gray body],
      landmarks_3d := Some [(''a.jpg.png'', gray)]\<rparr>"

definition squat_bootstrapped :: class_files where
  "squat_bootstrapped = squat_a_done
     \<lparr>images_out := Some [(''a.jpg'', cvtColor gray), (''b.jpg'', cvtColor blank)]\<rparr>"

text \<open>
  Images that \<^verbatim>\<open>cv2.imread\<close> reads by their content and for whose names OpenCV has no
  encoder: \<^verbatim>\<open>photo\<close> shows a body, \<^verbatim>\<open>a.jfif\<close> shows none.
\<close>

definition squat_odd_names :: class_files where
  "squat_odd_names = no_files
     \<lparr>images_in := Some [(''photo'', Some gray), (''a.jfif'', Some blank)],
      images_out := Some [], csv := Some [], landmarks_3d := Some []\<rparr>"

section \<open>Lemmas on paths and on the two loops of align_images_and_csvs\<close>

text \<open>The classes that the constructor lists are sorted, not hidden, and named once each.\<close>

lemma pose_class_names_listing:
  "sorted (pose_class_names listing) \<and>
   set (pose_class_names listing) = {d \<in> set listing. \<not> startswith_dot d} \<and>
   (distinct listing \<longrightarrow> distinct (pose_class_names listing))"
  by (auto simp: pose_class_names_def)

lemma split_sep_no_slash: "CHR ''/'' \<notin> set n \<Longrightarrow> split_sep n = [n]"
  by (induction n) auto

lemma walk_entry_name:
  "entry_name n \<Longrightarrow> walk ns [n] = (if n \<in> set ns then Entry n else Absent FileNotFoundError)"
  by (simp add: entry_name_def)

lemma resolve_entry_name:
  "entry_name n \<Longrightarrow>
   resolve dir n =
     (case dir of None \<Rightarrow> Absent FileNotFoundError
      | Some es \<Rightarrow> if n \<in> fst ` set es then Entry n else Absent FileNotFoundError)"
proof -
  assume n: "entry_name n"
  then have "\<not> (n \<noteq> [] \<and> hd n = CHR ''/'')"
    by (cases n) (auto simp: entry_name_def)
  moreover from n have "split_sep n = [n]"
    by (simp add: entry_name_def split_sep_no_slash)
  ultimately show ?thesis
    using n by (auto simp: resolve_def entry_name_def split: option.split)
qed

lemma path_exists_entry_name:
  "entry_name n \<Longrightarrow>
   path_exists dir n = Some (case dir of None \<Rightarrow> False | Some es \<Rightarrow> n \<in> fst ` set es)"
  by (simp add: path_exists_def resolve_entry_name split: option.split)

lemma os_remove_entry:
  "entry_name n \<Longrightarrow> n \<in> fst ` set es \<Longrightarrow>
   os_remove (Some es) n = Returns (Some (filter (\<lambda>e. fst e \<noteq> n) es))"
  by (simp add: os_remove_def resolve_entry_name)

lemma rewrite_rows_plain:
  "plain_rows rows \<Longrightarrow> [] \<notin> set rows \<Longrightarrow>
   rewrite_rows dir rows names written =
     Returns (names @ map hd (filter (\<lambda>r. path_exists dir (hd r) = Some True) rows),
              written @ filter (\<lambda>r. path_exists dir (hd r) = Some True) rows)"
proof (induction dir rows names written rule: rewrite_rows.induct)
  case (1 dir names written)
  then show ?case by simp
next
  case (2 dir rows names written)
  then show ?case by simp
next
  case (3 dir image_name coords rows names written)
  from "3.prems" have n: "entry_name image_name" and rest: "plain_rows rows" "[] \<notin> set rows"
    by (auto simp: plain_rows_def)
  obtain b where b: "path_exists dir image_name = Some b"
    using n by (simp add: path_exists_entry_name)
  show ?case
  proof (cases b)
    case True
    with b "3.IH"(1)[OF b True rest] show ?thesis by simp
  next
    case False
    with b "3.IH"(2)[OF b False rest] show ?thesis by simp
  qed
qed

lemma remove_unlisted_well_formed:
  "well_formed es \<Longrightarrow> set listing \<subseteq> fst ` set es \<Longrightarrow> distinct listing \<Longrightarrow>
   remove_unlisted names listing (Some es) =
     Returns (Some (filter (\<lambda>e. fst e \<in> set listing \<longrightarrow> fst e \<in> set names) es))"
proof (induction listing arbitrary: es)
  case Nil
  then show ?case by simp
next
  case (Cons n listing)
  show ?case
  proof (cases "n \<in> set names")
    case True
    have "filter (\<lambda>e. fst e \<in> set listing \<longrightarrow> fst e \<in> set names) es =
          filter (\<lambda>e. fst e \<in> set (n # listing) \<longrightarrow> fst e \<in> set names) es"
      using True by (intro filter_cong) auto
    with True Cons show ?thesis by simp
  next
    case False
    let ?es = "filter (\<lambda>e. fst e \<noteq> n) es"
    from Cons.prems have n: "entry_name n" "n \<in> fst ` set es"
      by (auto simp: well_formed_def list_all_iff)
    have wf: "well_formed ?es"
      using Cons.prems(1) by (auto simp: well_formed_def list_all_iff distinct_map_filter)
    have sub: "set listing \<subseteq> fst ` set ?es"
      using Cons.prems(2,3) by force
    have "filter (\<lambda>e. fst e \<in> set listing \<longrightarrow> fst e \<in> set names) ?es =
          filter (\<lambda>e. fst e \<in> set (n # listing) \<longrightarrow> fst e \<in> set names) es"
      using False by (auto intro: filter_cong)
    with False Cons.IH[OF wf sub] Cons.prems(3) n show ?thesis
      by (simp add: os_remove_entry)
  qed
qed

lemma rewrite_rows_entry_names:
  assumes "plain_rows rows"
  shows "rewrite_rows (Some es) (filter (\<lambda>row. length row \<noteq> 0) rows) [] [] =
     Returns (map hd (filter (\<lambda>r. r \<noteq> [] \<and> hd r \<in> fst ` set es) rows),
              filter (\<lambda>r. r \<noteq> [] \<and> hd r \<in> fst ` set es) rows)"
proof -
  let ?rows = "filter (\<lambda>row. length row \<noteq> 0) rows"
  have p: "plain_rows ?rows" "[] \<notin> set ?rows"
    using assms by (auto simp: plain_rows_def list_all_iff)
  have "filter (\<lambda>r. path_exists (Some es) (hd r) = Some True) ?rows =
        filter (\<lambda>r. r \<noteq> [] \<and> hd r \<in> fst ` set es) rows"
    unfolding filter_filter
  proof (rule filter_cong[OF refl])
    fix r assume "r \<in> set rows"
    with assms have "r = [] \<or> entry_name (hd r)"
      by (auto simp: plain_rows_def list_all_iff)
    then show "(length r \<noteq> 0 \<and> path_exists (Some es) (hd r) = Some True) =
               (r \<noteq> [] \<and> hd r \<in> fst ` set es)"
    proof
      assume "r = []"
      then show ?thesis by simp
    next
      assume "entry_name (hd r)"
      then have "path_exists (Some es) (hd r) = Some (hd r \<in> fst ` set es)"
        by (simp add: path_exists_entry_name)
      then show ?thesis by auto
    qed
  qed
  with rewrite_rows_plain[OF p, of "Some es" "[]" "[]"] show ?thesis by simp
qed

lemma rewrite_rows_no_folder:
  assumes "plain_rows rows"
  shows "rewrite_rows None (filter (\<lambda>row. length row \<noteq> 0) rows) [] [] = Returns ([], [])"
proof -
  let ?rows = "filter (\<lambda>row. length row \<noteq> 0) rows"
  have p: "plain_rows ?rows" "[] \<notin> set ?rows"
    using assms by (auto simp: plain_rows_def list_all_iff)
  have "filter (\<lambda>r. path_exists None (hd r) = Some True) ?rows = []"
    using p by (auto simp: filter_empty_conv plain_rows_def list_all_iff path_exists_entry_name)
  with rewrite_rows_plain[OF p, of None "[]" "[]"] show ?thesis by simp
qed

lemma align_class_tidy:
  assumes "tidy cf" and "csv cf = Some rows" and "images_out cf = Some es"
  shows "align_class cf =
     Returns (cf\<lparr>csv := Some (kept_rows es rows),
                 images_out := Some (kept_files (kept_rows es rows) es)\<rparr>)"
proof -
  from assms have wf: "well_formed es" and pl: "plain_rows rows"
    by (auto simp: tidy_def)
  have "filter (\<lambda>e. fst e \<in> set (map fst es) \<longrightarrow> fst e \<in> set (map hd (kept_rows es rows))) es =
        kept_files (kept_rows es rows) es"
    unfolding kept_files_def by (rule filter_cong) auto
  then have "remove_unlisted (map hd (kept_rows es rows)) (map fst es) (Some es) =
        Returns (Some (kept_files (kept_rows es rows) es))"
    using remove_unlisted_well_formed[OF wf, of "map fst es" "map hd (kept_rows es rows)"] wf
    by (simp add: well_formed_def)
  then show ?thesis
    using assms(2,3) rewrite_rows_entry_names[OF pl, of es]
    by (simp add: align_class_def kept_rows_def)
qed

lemma align_class_no_csv: "csv cf = None \<Longrightarrow> align_class cf = Raises FileNotFoundError cf"
  by (simp add: align_class_def)

lemma align_class_no_folder:
  assumes "tidy cf" and "csv cf = Some rows" and "images_out cf = None"
  shows "align_class cf = Raises FileNotFoundError (cf\<lparr>csv := Some []\<rparr>)"
proof -
  from assms have pl: "plain_rows rows" by (auto simp: tidy_def)
  show ?thesis
    using assms(2,3) rewrite_rows_no_folder[OF pl] by (simp add: align_class_def)
qed

lemma kept_rows_idem: "kept_rows (kept_files (kept_rows es rows) es) (kept_rows es rows) = kept_rows es rows"
  unfolding kept_rows_def kept_files_def filter_filter
  by (rule filter_cong) force+

lemma kept_files_idem:
  "kept_files (kept_rows es rows) (kept_files (kept_rows es rows) es) = kept_files (kept_rows es rows) es"
  unfolding kept_files_def filter_filter by (rule filter_cong) auto

lemma tidy_aligned:
  assumes "tidy cf" and "csv cf = Some rows" and "images_out cf = Some es"
  shows "tidy (cf\<lparr>csv := Some (kept_rows es rows),
                 images_out := Some (kept_files (kept_rows es rows) es)\<rparr>)"
  using assms
  by (auto simp: tidy_def well_formed_def plain_rows_def kept_rows_def kept_files_def
      list_all_iff distinct_map_filter)

lemma align_class_settles:
  assumes "tidy cf" and "align_class cf = Returns cf'"
  shows "align_class cf' = Returns cf' \<and> tidy cf'"
proof -
  from assms(2) obtain rows where rows: "csv cf = Some rows"
    by (cases "csv cf") (auto simp: align_class_no_csv)
  from assms rows obtain es where es: "images_out cf = Some es"
    by (cases "images_out cf") (auto simp: align_class_no_folder)
  let ?cf = "cf\<lparr>csv := Some (kept_rows es rows),
                 images_out := Some (kept_files (kept_rows es rows) es)\<rparr>"
  have cf': "cf' = ?cf"
    using align_class_tidy[OF assms(1) rows es] assms(2) by simp
  have t: "tidy ?cf" by (rule tidy_aligned[OF assms(1) rows es])
  have "align_class ?cf = Returns ?cf"
    using align_class_tidy[OF t, of "kept_rows es rows" "kept_files (kept_rows es rows) es"]
    by (simp add: kept_rows_idem kept_files_idem)
  with cf' t show ?thesis by simp
qed

lemma align_class_raise_again:
  assumes "tidy cf" and "align_class cf = Raises e cf'"
  shows "align_class cf' = Raises e cf'"
proof (cases "csv cf")
  case None
  with assms(2) show ?thesis by (auto simp: align_class_no_csv)
next
  case (Some rows)
  show ?thesis
  proof (cases "images_out cf")
    case None
    have "tidy (cf\<lparr>csv := Some []\<rparr>)"
      using assms(1) by (simp add: tidy_def plain_rows_def)
    from align_class_no_folder[OF this, of "[]"] None
    have "align_class (cf\<lparr>csv := Some []\<rparr>) = Raises FileNotFoundError (cf\<lparr>csv := Some []\<rparr>)"
      by simp
    with assms Some None show ?thesis by (auto simp: align_class_no_folder)
  next
    case es: (Some es)
    with assms Some show ?thesis by (simp add: align_class_tidy)
  qed
qed

lemma align_class_modelled: "tidy cf \<Longrightarrow> align_class cf \<noteq> Leaves_folders"
  by (cases "csv cf"; cases "images_out cf")
     (auto simp: align_class_no_csv align_class_no_folder align_class_tidy)

lemma align_keeps_settled:
  assumes "align_class cf0 = Returns cf0"
    and "align_images_and_csvs cs (fs(c := cf0)) = Returns fs1 \<or>
         align_images_and_csvs cs (fs(c := cf0)) = Raises e fs1"
  shows "fs1 c = cf0"
  using assms(2)
proof (induction cs arbitrary: fs)
  case Nil
  then show ?case by auto
next
  case (Cons d cs)
  show ?case
  proof (cases "d = c")
    case True
    with Cons.prems assms(1)
    have "align_images_and_csvs cs (fs(c := cf0)) = Returns fs1 \<or>
          align_images_and_csvs cs (fs(c := cf0)) = Raises e fs1"
      by (simp add: fun_upd_def[symmetric])
    then show ?thesis by (rule Cons.IH)
  next
    case False
    show ?thesis
    proof (cases "align_class (fs d)")
      case (Returns cf)
      have "(fs(c := cf0))(d := cf) = (fs(d := cf))(c := cf0)"
        using False by (simp add: fun_upd_twist)
      with Cons.prems False Returns
      have "align_images_and_csvs cs ((fs(d := cf))(c := cf0)) = Returns fs1 \<or>
            align_images_and_csvs cs ((fs(d := cf))(c := cf0)) = Raises e fs1"
        by (simp add: fun_upd_def[symmetric])
      then show ?thesis by (rule Cons.IH)
    next
      case (Raises e' cf)
      with Cons.prems False show ?thesis by auto
    next
      case Leaves_folders
      with Cons.prems False show ?thesis by simp
    qed
  qed
qed

lemma align_loop_closed_form:
  assumes "\<forall>c\<in>set cs. tidy (fs c)"
    and "align_images_and_csvs cs fs = Returns fs1"
    and "c \<in> set cs"
  shows "\<exists>rows es. csv (fs c) = Some rows \<and> images_out (fs c) = Some es \<and>
           fs1 c = (fs c)\<lparr>csv := Some (kept_rows es rows),
                             images_out := Some (kept_files (kept_rows es rows) es)\<rparr>"
  using assms
proof (induction cs arbitrary: fs)
  case Nil
  then show ?case by simp
next
  case (Cons d cs)
  from Cons.prems(1) have td: "tidy (fs d)" by simp
  from Cons.prems(2) obtain cf where cf: "align_class (fs d) = Returns cf"
    and rest: "align_images_and_csvs cs (fs(d := cf)) = Returns fs1"
    by (cases "align_class (fs d)") auto
  from align_class_settles[OF td cf] have settled: "align_class cf = Returns cf" and tcf: "tidy cf"
    by simp_all
  have tidy2: "\<forall>c\<in>set cs. tidy ((fs(d := cf)) c)"
    using Cons.prems(1) tcf by simp
  show ?case
  proof (cases "c = d")
    case True
    from cf obtain rows where rows: "csv (fs d) = Some rows"
      by (cases "csv (fs d)") (auto simp: align_class_no_csv)
    from cf td rows obtain es where es: "images_out (fs d) = Some es"
      by (cases "images_out (fs d)") (auto simp: align_class_no_folder)
    from align_keeps_settled[OF settled, of cs fs d fs1] rest
    have "fs1 d = cf" by simp
    with align_class_tidy[OF td rows es] cf rows es True show ?thesis by simp
  next
    case False
    with Cons.prems(3) have "c \<in> set cs" by simp
    from Cons.IH[OF tidy2 rest this] False show ?thesis by simp
  qed
qed

lemma align_twice_tidy:
  assumes "\<forall>c\<in>set cs. tidy (fs c)"
  shows "align_twice cs fs = align_images_and_csvs cs fs"
  using assms
proof (induction cs arbitrary: fs)
  case Nil
  then show ?case by (simp add: align_twice_def)
next
  case (Cons d cs)
  from Cons.prems have td: "tidy (fs d)" by simp
  show ?case
  proof (cases "align_class (fs d)")
    case (Returns cf)
    from align_class_settles[OF td Returns]
    have settled: "align_class cf = Returns cf" and tcf: "tidy cf" by simp_all
    let ?fs = "fs(d := cf)"
    have "\<forall>c\<in>set cs. tidy (?fs c)" using Cons.prems tcf by simp
    from Cons.IH[OF this] have IH: "align_twice cs ?fs = align_images_and_csvs cs ?fs" .
    show ?thesis
    proof (cases "align_images_and_csvs cs ?fs")
      case r: (Returns fs1)
      from align_keeps_settled[OF settled, of cs fs d fs1] r have "fs1 d = cf" by simp
      then have "fs1(d := cf) = fs1" by auto
      with r IH Returns settled \<open>fs1 d = cf\<close> show ?thesis
        by (simp add: align_twice_def)
    next
      case r: (Raises e fs1)
      from align_keeps_settled[OF settled, of cs fs d fs1 e] r have "fs1 d = cf" by simp
      then have "fs1(d := cf) = fs1" by auto
      with r IH Returns settled \<open>fs1 d = cf\<close> show ?thesis
        by (simp add: align_twice_def)
    next
      case Leaves_folders
      with Returns show ?thesis by (simp add: align_twice_def)
    qed
  next
    case (Raises e cf)
    from align_class_raise_again[OF td Raises] Raises show ?thesis
      by (simp add: align_twice_def)
  next
    case Leaves_folders
    then show ?thesis by (simp add: align_twice_def)
  qed
qed



lemmas example_defs = gray_def no_files_def squat_before_def squat_after_def dataset_def

lemma entry_name_simps [simp]: "entry_name ''a.jpg''" "entry_name ''b.jpg''" "entry_name ''gone.jpg''"
  "entry_name ''.DS_Store''" "entry_name ''squat''"
  by (simp_all add: entry_name_def)

lemma squat_aligned: "align_class squat_before = Returns squat_after"
  by (simp add: example_defs align_class_def path_exists_def resolve_def os_remove_def)

lemma dataset_aligned: "align_images_and_csvs [''squat''] (dataset squat_before) = Returns (dataset squat_after)"
  by (simp add: squat_aligned dataset_def)

lemma tidy_squat_before: "tidy squat_before"
  by (simp add: tidy_def squat_before_def no_files_def well_formed_def plain_rows_def)

lemma distinct_names_filter:
  "distinct (concat (map (take 1) rows)) \<Longrightarrow> distinct (concat (map (take 1) (filter P rows)))"
  by (induction rows) auto

lemma names_in_csv_nonempty:
  "[] \<notin> set rows \<Longrightarrow> names_in_csv (Some rows) = map hd rows"
proof (induction rows)
  case Nil
  then show ?case by (simp add: names_in_csv_def)
next
  case (Cons r rows)
  then show ?case by (cases r) (auto simp: names_in_csv_def)
qed

lemma rewrite_rows_returns:
  "rewrite_rows dir rows names written = Returns (names', written') \<Longrightarrow>
   [] \<notin> set rows \<and>
   names' = names @ map hd (filter (\<lambda>r. path_exists dir (hd r) = Some True) rows) \<and>
   written' = written @ filter (\<lambda>r. path_exists dir (hd r) = Some True) rows"
proof (induction dir rows names written rule: rewrite_rows.induct)
  case (1 dir names written)
  then show ?case by simp
next
  case (2 dir rows names written)
  then show ?case by simp
next
  case (3 dir image_name coords rows names written)
  from "3.prems" obtain b where b: "path_exists dir image_name = Some b"
    by (cases "path_exists dir image_name") auto
  show ?case
  proof (cases b)
    case True
    with b "3.prems" "3.IH"(1)[OF b True] show ?thesis by simp
  next
    case False
    with b "3.prems" "3.IH"(2)[OF b False] show ?thesis by simp
  qed
qed

lemma align_class_returns:
  assumes "align_class cf = Returns cf'"
  shows "\<exists>rows es dir.
     csv cf = Some rows \<and> images_out cf = Some es \<and>
     remove_unlisted
       (map hd (filter (\<lambda>r. r \<noteq> [] \<and> path_exists (Some es) (hd r) = Some True) rows))
       (map fst es) (Some es) = Returns dir \<and>
     cf' = cf\<lparr>csv := Some (filter (\<lambda>r. r \<noteq> [] \<and> path_exists (Some es) (hd r) = Some True) rows),
              images_out := dir\<rparr>"
proof -
  from assms obtain rows where rows: "csv cf = Some rows"
    by (cases "csv cf") (auto simp: align_class_def)
  let ?rows = "filter (\<lambda>row. length row \<noteq> 0) rows"
  from assms rows obtain names written where
    rw: "rewrite_rows (images_out cf) ?rows [] [] = Returns (names, written)"
    by (cases "rewrite_rows (images_out cf) ?rows [] []")
       (auto simp: align_class_def split: prod.splits)
  from assms rows rw obtain es where es: "images_out cf = Some es"
    by (cases "images_out cf") (auto simp: align_class_def)
  from assms rows rw es obtain dir where
    rm: "remove_unlisted names (map fst es) (Some es) = Returns dir"
    and cf': "cf' = cf\<lparr>csv := Some written, images_out := dir\<rparr>"
    by (cases "remove_unlisted names (map fst es) (Some es)") (auto simp: align_class_def)
  have "filter (\<lambda>r. path_exists (Some es) (hd r) = Some True) ?rows =
        filter (\<lambda>r. r \<noteq> [] \<and> path_exists (Some es) (hd r) = Some True) rows"
    by (simp add: conj_commute)
  with rewrite_rows_returns[OF rw] es
  have "written = filter (\<lambda>r. r \<noteq> [] \<and> path_exists (Some es) (hd r) = Some True) rows"
    and "names = map hd written"
    by simp_all
  with rows es rm cf' show ?thesis by simp
qed

lemma align_class_keeps_order:
  assumes "align_class cf = Returns cf'" and "csv cf = Some rows"
  shows "csv cf' =
     Some (filter (\<lambda>r. r \<noteq> [] \<and> path_exists (images_out cf) (hd r) = Some True) rows)"
  using align_class_returns[OF assms(1)] assms(2) by auto


lemma align_csv_subseq:
  assumes "align_images_and_csvs cs fs = Returns fs'" and "csv (fs c) = Some rows"
  shows "\<exists>rows'. csv (fs' c) = Some rows' \<and> subseq rows' rows"
  using assms
proof (induction cs arbitrary: fs rows)
  case Nil
  then show ?case by auto
next
  case (Cons d cs)
  from Cons.prems(1) obtain cf where cf: "align_class (fs d) = Returns cf"
    and rest: "align_images_and_csvs cs (fs(d := cf)) = Returns fs'"
    by (cases "align_class (fs d)") auto
  show ?case
  proof (cases "d = c")
    case True
    with align_class_keeps_order[OF cf] Cons.prems(2) obtain rows1 where
      r1: "csv cf = Some rows1" and s1: "subseq rows1 rows"
      by auto
    from r1 True have "csv ((fs(d := cf)) c) = Some rows1" by simp
    from Cons.IH[OF rest this] s1 show ?thesis
      by (auto intro: subseq_order.trans)
  next
    case False
    with Cons.prems(2) have "csv ((fs(d := cf)) c) = Some rows" by simp
    from Cons.IH[OF rest this] show ?thesis .
  qed
qed

lemma align_modelled:
  assumes "\<forall>c\<in>set cs. tidy (fs c)"
  shows "align_images_and_csvs cs fs \<noteq> Leaves_folders"
  using assms
proof (induction cs arbitrary: fs)
  case Nil
  then show ?case by simp
next
  case (Cons d cs)
  from Cons.prems have td: "tidy (fs d)" by simp
  show ?case
  proof (cases "align_class (fs d)")
    case (Returns cf)
    from align_class_settles[OF td Returns] have "tidy cf" by simp
    with Cons.prems have "\<forall>c\<in>set cs. tidy ((fs(d := cf)) c)" by simp
    from Cons.IH[OF this] Returns show ?thesis by (simp add: fun_upd_def)
  next
    case (Raises e cf)
    then show ?thesis by simp
  next
    case Leaves_folders
    with align_class_modelled[OF td] show ?thesis by simp
  qed
qed

lemma align_untouched:
  assumes "align_images_and_csvs cs fs = Returns fs' \<or> align_images_and_csvs cs fs = Raises e fs'"
    and "c \<notin> set cs"
  shows "fs' c = fs c"
  using assms
proof (induction cs arbitrary: fs)
  case Nil
  then show ?case by auto
next
  case (Cons d cs)
  show ?case
  proof (cases "align_class (fs d)")
    case (Returns cf)
    with Cons.prems(1)
    have "align_images_and_csvs cs (fs(d := cf)) = Returns fs' \<or>
          align_images_and_csvs cs (fs(d := cf)) = Raises e fs'"
      by simp
    from Cons.IH[OF this] Cons.prems(2) show ?thesis by simp
  next
    case (Raises e' cf)
    with Cons.prems show ?thesis by auto
  next
    case Leaves_folders
    with Cons.prems show ?thesis by simp
  qed
qed

lemma align_distinct_class:
  assumes "align_images_and_csvs cs fs = Returns fs'" and "distinct cs" and "c \<in> set cs"
  shows "align_class (fs c) = Returns (fs' c)"
  using assms
proof (induction cs arbitrary: fs)
  case Nil
  then show ?case by simp
next
  case (Cons d cs)
  from Cons.prems(1) obtain cf where cf: "align_class (fs d) = Returns cf"
    and rest: "align_images_and_csvs cs (fs(d := cf)) = Returns fs'"
    by (cases "align_class (fs d)") auto
  show ?case
  proof (cases "c = d")
    case True
    from Cons.prems(2) have "d \<notin> set cs" by simp
    with align_untouched[of cs "fs(d := cf)" fs' undefined d] rest have "fs' d = cf" by simp
    with cf True show ?thesis by simp
  next
    case False
    with Cons.prems have "distinct cs" "c \<in> set cs" by simp_all
    from Cons.IH[OF rest this] False show ?thesis by simp
  qed
qed

lemma squat_dotted_aligned: "align_class squat_dotted = Returns squat_dotted_once"
  by (simp add: squat_dotted_def squat_dotted_once_def no_files_def gray_def align_class_def
      path_exists_def resolve_def os_remove_def)

lemma squat_dotted_aligned_again: "align_class squat_dotted_once = Returns squat_empty"
  by (simp add: squat_empty_def squat_dotted_once_def no_files_def align_class_def
      path_exists_def resolve_def)

lemma walk_absent_shrinks:
  "walk ns cs = Absent e \<Longrightarrow> set ns' \<subseteq> set ns \<Longrightarrow> \<exists>e'. walk ns' cs = Absent e'"
  by (induction ns cs rule: walk.induct) (auto split: if_splits)

lemma path_exists_shrinks:
  assumes "path_exists dir n = Some False" and "shrinks dir dir'"
  shows "path_exists dir' n = Some False"
proof -
  from assms(1) obtain e where e: "resolve dir n = Absent e"
    by (cases "resolve dir n") (auto simp: path_exists_def)
  have "\<exists>e'. resolve dir' n = Absent e'"
  proof (cases dir)
    case None
    with assms(2) e show ?thesis by (auto simp: shrinks_def resolve_def split: if_splits)
  next
    case (Some es)
    with assms(2) obtain es' where es': "dir' = Some es'" "set (map fst es') \<subseteq> set (map fst es)"
      by (cases dir') (auto simp: shrinks_def)
    from e Some have "\<not> (n \<noteq> [] \<and> hd n = CHR ''/'')" and "walk (map fst es) (split_sep n) = Absent e"
      by (auto simp: resolve_def split: if_splits)
    with walk_absent_shrinks[OF this(2) es'(2)] es'(1) show ?thesis
      by (auto simp: resolve_def)
  qed
  then show ?thesis by (auto simp: path_exists_def)
qed

lemma walk_entry_removed:
  "walk ns cs = Entry m \<Longrightarrow> \<exists>e. walk (filter (\<lambda>n. n \<noteq> m) ns) cs = Absent e"
  by (induction ns cs rule: walk.induct) (auto split: if_splits)

lemma os_remove_returns:
  assumes "os_remove dir n = Returns dir'"
  shows "path_exists dir' n = Some False \<and> shrinks dir dir'"
proof -
  from assms obtain m where m: "resolve dir n = Entry m"
    and dir': "dir' = map_option (filter (\<lambda>e. fst e \<noteq> m)) dir"
    by (cases "resolve dir n") (auto simp: os_remove_def)
  from m obtain es where es: "dir = Some es" and abs: "\<not> (n \<noteq> [] \<and> hd n = CHR ''/'')"
    and w: "walk (map fst es) (split_sep n) = Entry m"
    by (cases dir) (auto simp: resolve_def split: if_splits)
  have "map fst (filter (\<lambda>e. fst e \<noteq> m) es) = filter (\<lambda>n. n \<noteq> m) (map fst es)"
    by (simp add: filter_map comp_def)
  with walk_entry_removed[OF w] obtain e where
    "walk (map fst (filter (\<lambda>e. fst e \<noteq> m) es)) (split_sep n) = Absent e"
    by auto
  with es dir' abs have "path_exists dir' n = Some False"
    by (auto simp: path_exists_def resolve_def)
  moreover from es dir' have "shrinks dir dir'" by (auto simp: shrinks_def)
  ultimately show ?thesis by simp
qed

lemma shrinks_refl: "shrinks dir dir"
  by (simp add: shrinks_def split: option.split)

lemma shrinks_trans: "shrinks d1 d2 \<Longrightarrow> shrinks d2 d3 \<Longrightarrow> shrinks d1 d3"
  by (auto simp: shrinks_def split: option.splits)

lemma remove_outliers_frame:
  assumes "remove_outliers outs fs = Returns fs1 \<or> remove_outliers outs fs = Raises e fs1"
  shows "csv (fs1 c) = csv (fs c) \<and> images_in (fs1 c) = images_in (fs c) \<and>
         landmarks_3d (fs1 c) = landmarks_3d (fs c) \<and>
         shrinks (images_out (fs c)) (images_out (fs1 c))"
  using assms
proof (induction outs arbitrary: fs)
  case Nil
  then show ?case by (auto simp: shrinks_refl)
next
  case (Cons out outs)
  let ?c = "sample_class_name (outlier_sample out)"
  let ?n = "sample_name (outlier_sample out)"
  from Cons.prems have en: "entry_name ?c" by (auto simp: Let_def split: if_splits)
  show ?case
  proof (cases "os_remove (images_out (fs ?c)) ?n")
    case (Returns dir)
    let ?fs = "fs(?c := (fs ?c)\<lparr>images_out := dir\<rparr>)"
    from Cons.prems en Returns
    have "remove_outliers outs ?fs = Returns fs1 \<or> remove_outliers outs ?fs = Raises e fs1"
      by (simp add: Let_def)
    from Cons.IH[OF this]
    have IH: "csv (fs1 c) = csv (?fs c)" "images_in (fs1 c) = images_in (?fs c)"
      "landmarks_3d (fs1 c) = landmarks_3d (?fs c)"
      "shrinks (images_out (?fs c)) (images_out (fs1 c))"
      by simp_all
    have "shrinks (images_out (fs c)) (images_out (?fs c))"
      using os_remove_returns[OF Returns] by (simp add: shrinks_refl)
    with IH show ?thesis by (auto intro: shrinks_trans)
  next
    case (Raises e' dir)
    with Cons.prems en show ?thesis by (auto simp: Let_def shrinks_refl)
  next
    case Leaves_folders
    with Cons.prems en show ?thesis by (simp add: Let_def)
  qed
qed

lemma remove_outliers_deleted:
  assumes "remove_outliers outs fs = Returns fs1" and "out \<in> set outs"
  shows "path_exists (images_out (fs1 (sample_class_name (outlier_sample out))))
           (sample_name (outlier_sample out)) = Some False"
  using assms
proof (induction outs arbitrary: fs)
  case Nil
  then show ?case by simp
next
  case (Cons o1 outs)
  let ?c = "sample_class_name (outlier_sample o1)"
  let ?n = "sample_name (outlier_sample o1)"
  from Cons.prems(1) have en: "entry_name ?c" by (auto simp: Let_def split: if_splits)
  from Cons.prems(1) en obtain dir where dir: "os_remove (images_out (fs ?c)) ?n = Returns dir"
    by (cases "os_remove (images_out (fs ?c)) ?n") (auto simp: Let_def)
  let ?fs = "fs(?c := (fs ?c)\<lparr>images_out := dir\<rparr>)"
  from Cons.prems(1) en dir have rest: "remove_outliers outs ?fs = Returns fs1"
    by (simp add: Let_def)
  show ?case
  proof (cases "out \<in> set outs")
    case True
    from Cons.IH[OF rest True] show ?thesis .
  next
    case False
    with Cons.prems(2) have eq: "out = o1" by simp
    have "path_exists (images_out (?fs ?c)) ?n = Some False"
      using os_remove_returns[OF dir] by simp
    moreover have "shrinks (images_out (?fs ?c)) (images_out (fs1 ?c))"
      using remove_outliers_frame[of outs ?fs fs1 undefined ?c] rest by simp
    ultimately show ?thesis using eq by (auto intro: path_exists_shrinks)
  qed
qed

lemma remove_outliers_append:
  "remove_outliers (xs @ ys) fs =
     (case remove_outliers xs fs of
        Returns fs1 \<Rightarrow> remove_outliers ys fs1
      | Raises e fs1 \<Rightarrow> Raises e fs1
      | Leaves_folders \<Rightarrow> Leaves_folders)"
proof (induction xs arbitrary: fs)
  case Nil
  then show ?case by simp
next
  case (Cons x xs)
  let ?c = "sample_class_name (outlier_sample x)"
  show ?case
  proof (cases "entry_name ?c")
    case False
    then show ?thesis by (simp add: Let_def)
  next
    case True
    show ?thesis
    proof (cases "os_remove (images_out (fs ?c)) (sample_name (outlier_sample x))")
      case (Returns dir)
      have "remove_outliers ((x # xs) @ ys) fs =
            remove_outliers (xs @ ys) (fs(?c := (fs ?c)\<lparr>images_out := dir\<rparr>))"
        using True Returns by (simp add: Let_def fun_upd_def[symmetric])
      moreover have "remove_outliers (x # xs) fs =
            remove_outliers xs (fs(?c := (fs ?c)\<lparr>images_out := dir\<rparr>))"
        using True Returns by (simp add: Let_def fun_upd_def[symmetric])
      ultimately show ?thesis by (simp only: Cons.IH)
    next
      case (Raises e dir)
      with True show ?thesis by (simp add: Let_def)
    next
      case Leaves_folders
      with True show ?thesis by (simp add: Let_def)
    qed
  qed
qed

lemma remove_a_jpg:
  "remove_outliers [outlier_of ''a.jpg''] (dataset squat_after) = Returns (dataset squat_removed)"
  by (simp add: outlier_of_def dataset_def squat_after_def squat_removed_def no_files_def
      Let_def os_remove_def resolve_def)

lemma remove_a_jpg_before:
  "remove_outliers [outlier_of ''a.jpg''] (dataset squat_before) =
     Returns (dataset squat_partly_removed)"
  by (simp add: outlier_of_def dataset_def squat_before_def squat_partly_removed_def no_files_def
      Let_def os_remove_def resolve_def)

lemma squat_removed_aligned:
  "align_images_and_csvs [''squat''] (dataset squat_removed) = Returns (dataset squat_empty)"
  by (simp add: dataset_def squat_removed_def squat_empty_def no_files_def align_class_def
      path_exists_def resolve_def)






section \<open>Lemmas on bootstrap\<close>

lemma np_shape_landmarks:
  "np_shape (map (\<lambda>lmk. [a lmk, b lmk, c lmk]) lms) = [33, 3] \<longleftrightarrow> length lms = 33"
  by (cases lms) (auto simp: np_shape_def)

lemma concat_triples_length:
  "length (concat (map (\<lambda>lmk. [a lmk, b lmk, c lmk]) lms)) = 3 * length lms"
  by (induction lms) auto

lemma concat_triples_nth:
  "i < length lms \<Longrightarrow>
   concat (map (\<lambda>lmk. [a lmk, b lmk, c lmk]) lms) ! (3 * i) = a (lms ! i) \<and>
   concat (map (\<lambda>lmk. [a lmk, b lmk, c lmk]) lms) ! (3 * i + 1) = b (lms ! i) \<and>
   concat (map (\<lambda>lmk. [a lmk, b lmk, c lmk]) lms) ! (3 * i + 2) = c (lms ! i)"
proof (induction lms arbitrary: i)
  case Nil
  then show ?case by simp
next
  case (Cons l lms)
  show ?case
  proof (cases i)
    case 0
    then show ?thesis by simp
  next
    case (Suc j)
    with Cons.prems have "j < length lms" by simp
    from Cons.IH[OF this] Suc show ?thesis by (simp add: numeral_3_eq_3)
  qed
qed

lemma writerow_neq [simp]: "writerow r written \<noteq> written" "written \<noteq> writerow r written"
  by (cases written; auto simp: writerow_def)+

lemma writerow_inject: "writerow r file = writerow r' file \<longleftrightarrow> r = r'"
  by (auto simp: writerow_def)

text \<open>The ways through \<^verbatim>\<open>_bootstrap_internal\<close>.\<close>

lemma bootstrap_internal_unreadable:
  "imread (images_in cf) image_name = None \<Longrightarrow>
   bootstrap_internal ext image_name c cf = Raises AttributeError cf"
  by (simp add: bootstrap_internal_def)

lemma bootstrap_internal_no_encoder:
  "imread (images_in cf) image_name = Some f \<Longrightarrow> \<not> has_encoder ext image_name \<Longrightarrow>
   bootstrap_internal ext image_name c cf = Raises cv2_error cf"
  by (simp add: bootstrap_internal_def imwrite_def)

lemma bootstrap_internal_no_body:
  "imread (images_in cf) image_name = Some f \<Longrightarrow> has_encoder ext image_name \<Longrightarrow>
   pose_process ext (cvtColor f) = None \<Longrightarrow>
   bootstrap_internal ext image_name c cf =
     Returns (cf\<lparr>images_out := store (images_out cf) image_name (cvtColor f)\<rparr>)"
  by (simp add: bootstrap_internal_def imwrite_def)

lemma bootstrap_internal_wrong_shape:
  "imread (images_in cf) image_name = Some f \<Longrightarrow> has_encoder ext image_name \<Longrightarrow>
   pose_process ext (cvtColor f) = Some lms \<Longrightarrow> length lms \<noteq> 33 \<Longrightarrow>
   bootstrap_internal ext image_name c cf =
     Raises AssertionError (cf\<lparr>images_out := store (images_out cf) image_name (cvtColor f)\<rparr>)"
  by (simp add: bootstrap_internal_def imwrite_def Let_def np_shape_landmarks)

lemma cvtColor_size [simp]:
  "frame_width (cvtColor f) = frame_width f" "frame_height (cvtColor f) = frame_height f"
  by (simp_all add: cvtColor_def)

lemma bootstrap_internal_body_eq:
  assumes "imread (images_in cf) image_name = Some f" and "has_encoder ext image_name"
    and "pose_process ext (cvtColor f) = Some lms" and "length lms = 33"
  shows "bootstrap_internal ext image_name c cf =
     (if has_encoder ext (image_name @ ''.png'')
      then (case draw_plot_landmarks_save ext c image_name of
              None \<Rightarrow> Returns (cf\<lparr>images_out := store (images_out cf) image_name (cvtColor f),
                                    csv := writerow (landmark_row ext image_name f lms) (csv cf),
                                    landmarks_3d := store (landmarks_3d cf) (image_name @ ''.png'')
                                                      (draw_landmarks ext f lms)\<rparr>)
            | Some e \<Rightarrow> Raises e (cf\<lparr>images_out := store (images_out cf) image_name (cvtColor f),
                                    csv := writerow (landmark_row ext image_name f lms) (csv cf),
                                    landmarks_3d := store (landmarks_3d cf) (image_name @ ''.png'')
                                                      (draw_landmarks ext f lms)\<rparr>))
      else Raises cv2_error (cf\<lparr>images_out := store (images_out cf) image_name (cvtColor f),
                                csv := writerow (landmark_row ext image_name f lms) (csv cf)\<rparr>))"
  using assms
  by (simp add: bootstrap_internal_def imwrite_def Let_def np_shape_landmarks landmark_row_def
      split: option.split)

lemma bootstrap_internal_body:
  assumes "imread (images_in cf) image_name = Some f" and "has_encoder ext image_name"
    and "pose_process ext (cvtColor f) = Some lms" and "length lms = 33"
  shows "\<exists>cf'. csv cf' = writerow (landmark_row ext image_name f lms) (csv cf) \<and>
           images_in cf' = images_in cf \<and>
           (bootstrap_internal ext image_name c cf = Returns cf' \<or>
            (\<exists>e. bootstrap_internal ext image_name c cf = Raises e cf'))"
proof (cases "has_encoder ext (image_name @ ''.png'')")
  case False
  let ?cf = "cf\<lparr>images_out := store (images_out cf) image_name (cvtColor f),
                csv := writerow (landmark_row ext image_name f lms) (csv cf)\<rparr>"
  from False have "bootstrap_internal ext image_name c cf = Raises cv2_error ?cf"
    by (simp add: bootstrap_internal_body_eq[OF assms])
  moreover have "csv ?cf = writerow (landmark_row ext image_name f lms) (csv cf)"
    "images_in ?cf = images_in cf"
    by simp_all
  ultimately show ?thesis by blast
next
  case True
  let ?cf = "cf\<lparr>images_out := store (images_out cf) image_name (cvtColor f),
                csv := writerow (landmark_row ext image_name f lms) (csv cf),
                landmarks_3d := store (landmarks_3d cf) (image_name @ ''.png'')
                                  (draw_landmarks ext f lms)\<rparr>"
  have c: "csv ?cf = writerow (landmark_row ext image_name f lms) (csv cf)"
    "images_in ?cf = images_in cf"
    by simp_all
  show ?thesis
  proof (cases "draw_plot_landmarks_save ext c image_name")
    case None
    with True have "bootstrap_internal ext image_name c cf = Returns ?cf"
      by (simp add: bootstrap_internal_body_eq[OF assms])
    with c show ?thesis by blast
  next
    case (Some e)
    with True have "bootstrap_internal ext image_name c cf = Raises e ?cf"
      by (simp add: bootstrap_internal_body_eq[OF assms])
    with c show ?thesis by blast
  qed
qed

lemma landmark_row_length: "length (landmark_row ext image_name f lms) = 1 + 3 * length lms"
  by (simp add: landmark_row_def concat_triples_length)

lemma landmark_row_hd [simp]: "hd (landmark_row ext image_name f lms) = image_name"
  by (simp add: landmark_row_def)

lemma landmark_row_nth:
  assumes "i < length lms"
  shows "landmark_row ext image_name f lms ! (3 * i + 1) =
           as_str ext (mul ext (lmk_x (lms ! i)) (frame_width f)) \<and>
         landmark_row ext image_name f lms ! (3 * i + 2) =
           as_str ext (mul ext (lmk_y (lms ! i)) (frame_height f)) \<and>
         landmark_row ext image_name f lms ! (3 * i + 3) =
           as_str ext (mul ext (lmk_z (lms ! i)) (frame_width f))"
proof -
  let ?xs = "concat (map (\<lambda>lmk. [mul ext (lmk_x lmk) (frame_width f),
                              mul ext (lmk_y lmk) (frame_height f),
                              mul ext (lmk_z lmk) (frame_width f)]) lms)"
  have len: "length ?xs = 3 * length lms" by (rule concat_triples_length)
  with assms have lt: "3 * i < length ?xs" "3 * i + 1 < length ?xs" "3 * i + 2 < length ?xs"
    by simp_all
  have "landmark_row ext image_name f lms ! (3 * i + 1) = map (as_str ext) ?xs ! (3 * i)"
    "landmark_row ext image_name f lms ! (3 * i + 2) = map (as_str ext) ?xs ! (3 * i + 1)"
    "landmark_row ext image_name f lms ! (3 * i + 3) = map (as_str ext) ?xs ! (3 * i + 2)"
    by (simp_all add: landmark_row_def numeral_3_eq_3)
  with lt concat_triples_nth[OF assms, of "\<lambda>lmk. mul ext (lmk_x lmk) (frame_width f)"
      "\<lambda>lmk. mul ext (lmk_y lmk) (frame_height f)" "\<lambda>lmk. mul ext (lmk_z lmk) (frame_width f)"]
  show ?thesis by (simp only: nth_map)
qed

lemma tracker_contract: "\<forall>f lms. pose_process tracker f = Some lms \<longrightarrow> length lms = 33"
  by (simp add: tracker_def body_def)

lemma tracker_encoders [simp]:
  "has_encoder tracker ''a.jpg''" "has_encoder tracker ''b.jpg''"
  "has_encoder tracker ''a.jpg.png''"
  "\<not> has_encoder tracker ''photo''" "\<not> has_encoder tracker ''a.jfif''"
  "has_encoder other_tracker = has_encoder tracker"
  by (simp_all add: tracker_def other_tracker_def suffix_to_prefix)

lemma step_a_jpg: "bootstrap_internal tracker ''a.jpg'' ''squat'' squat_opened = Returns squat_a_done"
proof -
  have "imread (images_in squat_opened) ''a.jpg'' = Some gray"
    by (simp add: squat_opened_def squat_input_def no_files_def imread_def)
  moreover have "pose_process tracker (cvtColor gray) = Some body"
    by (simp add: tracker_def gray_def)
  moreover have "length body = 33" by (simp add: body_def)
  moreover have "draw_plot_landmarks_save tracker ''squat'' ''a.jpg'' = None"
    "draw_landmarks tracker gray body = gray"
    by (simp_all add: tracker_def)
  ultimately have "bootstrap_internal tracker ''a.jpg'' ''squat'' squat_opened =
     Returns (squat_opened\<lparr>images_out := store (images_out squat_opened) ''a.jpg'' (cvtColor gray),
                csv := writerow (landmark_row tracker ''a.jpg'' gray body) (csv squat_opened),
                landmarks_3d := store (landmarks_3d squat_opened) (''a.jpg'' @ ''.png'') gray\<rparr>)"
    by (simp add: bootstrap_internal_body_eq)
  then show ?thesis
    by (simp add: squat_opened_def squat_a_done_def squat_input_def no_files_def store_def
        writerow_def)
qed

lemma step_b_jpg: "bootstrap_internal tracker ''b.jpg'' ''squat'' squat_a_done = Returns squat_bootstrapped"
proof -
  have "imread (images_in squat_a_done) ''b.jpg'' = Some blank"
    by (simp add: squat_a_done_def squat_input_def no_files_def imread_def)
  moreover have "pose_process tracker (cvtColor blank) = None"
    by (simp add: tracker_def blank_def)
  ultimately show ?thesis
    by (simp add: bootstrap_internal_no_body)
       (simp add: squat_a_done_def squat_bootstrapped_def squat_input_def no_files_def store_def)
qed

lemma odd_reads:
  "imread (images_in squat_odd_names) ''photo'' = Some gray"
  "imread (images_in squat_odd_names) ''a.jfif'' = Some blank"
  by (simp_all add: squat_odd_names_def no_files_def imread_def)

lemma detects_images_in: "images_in cf' = images_in cf \<Longrightarrow> detects ext cf' = detects ext cf"
  by (simp add: detects_def fun_eq_iff)

lemma bootstrap_internal_returns:
  assumes "bootstrap_internal ext n c cf = Returns cf'"
  shows "images_in cf' = images_in cf \<and>
         (if detects ext cf n
          then \<exists>r. csv cf' = writerow r (csv cf) \<and> hd r = n \<and> r \<noteq> []
          else csv cf' = csv cf)"
proof (cases "imread (images_in cf) n")
  case None
  with assms show ?thesis by (simp add: bootstrap_internal_unreadable)
next
  case (Some f)
  show ?thesis
  proof (cases "has_encoder ext n")
    case False
    with assms Some show ?thesis by (simp add: bootstrap_internal_no_encoder)
  next
    case enc: True
    show ?thesis
    proof (cases "pose_process ext (cvtColor f)")
      case None
      with assms Some enc show ?thesis by (auto simp: bootstrap_internal_no_body detects_def)
    next
      case lms: (Some lms)
      show ?thesis
      proof (cases "length lms = 33")
        case True
        from bootstrap_internal_body[OF Some enc lms True, of c] assms
        have "csv cf' = writerow (landmark_row ext n f lms) (csv cf)" "images_in cf' = images_in cf"
          by auto
        moreover have "landmark_row ext n f lms \<noteq> []" by (simp add: landmark_row_def)
        ultimately show ?thesis using Some lms by (auto simp: detects_def)
      next
        case False
        with assms Some enc lms show ?thesis by (simp add: bootstrap_internal_wrong_shape)
      qed
    qed
  qed
qed

lemma bootstrap_images_returns:
  assumes "bootstrap_images ext c names cf = Returns cf'" and "csv cf = Some rows"
  shows "\<exists>new. csv cf' = Some (rows @ new) \<and> map hd new = filter (detects ext cf) names \<and>
           [] \<notin> set new"
  using assms
proof (induction names arbitrary: cf rows)
  case Nil
  then show ?case by simp
next
  case (Cons n names)
  from Cons.prems(1) obtain cf1 where s: "bootstrap_internal ext n c cf = Returns cf1"
    and rest: "bootstrap_images ext c names cf1 = Returns cf'"
    by (cases "bootstrap_internal ext n c cf") auto
  from bootstrap_internal_returns[OF s] have im: "images_in cf1 = images_in cf"
    and cs: "if detects ext cf n
          then \<exists>r. csv cf1 = writerow r (csv cf) \<and> hd r = n \<and> r \<noteq> []
          else csv cf1 = csv cf"
    by simp_all
  note d = detects_images_in[OF im, of ext]
  show ?case
  proof (cases "detects ext cf n")
    case True
    with cs Cons.prems(2) obtain r where r: "csv cf1 = Some (rows @ [r])" "hd r = n" "r \<noteq> []"
      by (auto simp: writerow_def)
    from Cons.IH[OF rest r(1)] obtain new where
      "csv cf' = Some ((rows @ [r]) @ new)" "map hd new = filter (detects ext cf1) names"
      "[] \<notin> set new"
      by blast
    with r True d have "csv cf' = Some (rows @ (r # new)) \<and>
        map hd (r # new) = filter (detects ext cf) (n # names) \<and> [] \<notin> set (r # new)"
      by auto
    then show ?thesis by blast
  next
    case False
    with cs Cons.prems(2) have "csv cf1 = Some rows" by simp
    from Cons.IH[OF rest this] False d show ?thesis by simp
  qed
qed

lemma bootstrap_class_names_in_csv:
  assumes "bootstrap_class ext limit c cf = Returns cf'" and "images_in cf = Some ins"
  shows "names_in_csv (csv cf') = filter (detects ext cf) (image_names limit (map fst ins))"
proof -
  let ?cf = "cf\<lparr>landmarks_3d := makedirs (landmarks_3d cf),
                 images_out := makedirs (images_out cf), csv := Some []\<rparr>"
  from assms have "bootstrap_images ext c (image_names limit (map fst ins)) ?cf = Returns cf'"
    by (simp add: bootstrap_class_def Let_def)
  from bootstrap_images_returns[OF this, of "[]"] obtain new where
    new: "csv cf' = Some new" "map hd new = filter (detects ext ?cf) (image_names limit (map fst ins))"
      "[] \<notin> set new"
    by auto
  have "detects ext ?cf = detects ext cf" by (rule detects_images_in) simp
  with new names_in_csv_nonempty[OF new(3)] show ?thesis by simp
qed

lemma sorted_image_names: "sorted (image_names limit listing)"
  by (cases limit) (simp_all add: image_names_def slice_to_def sorted_wrt_take Let_def)

lemma image_names_first:
  "0 \<le> k \<Longrightarrow>
   image_names (Some k) listing = take (nat k) (sort (filter (\<lambda>n. \<not> startswith_dot n) listing))"
  by (simp add: image_names_def slice_to_def)

lemma squat_bootstrap_one:
  "bootstrap_class tracker (Some 1) ''squat'' squat_input = Returns squat_a_done"
proof -
  have "image_names (Some 1) [''b.jpg'', ''.hidden'', ''a.jpg''] = [''a.jpg'']"
    by (simp add: image_names_def slice_to_def startswith_dot_def)
  moreover have "squat_input\<lparr>landmarks_3d := makedirs (landmarks_3d squat_input),
      images_out := makedirs (images_out squat_input), csv := Some []\<rparr> = squat_opened"
    by (simp add: squat_opened_def squat_input_def no_files_def makedirs_def)
  moreover have "images_in squat_opened =
      Some [(''b.jpg'', Some blank), (''.hidden'', None), (''a.jpg'', Some gray)]"
    by (simp add: squat_opened_def squat_input_def no_files_def)
  ultimately show ?thesis
    by (simp add: bootstrap_class_def Let_def step_a_jpg)
qed

section \<open>The claims\<close>

text \<open>
  C1, as amended. Whenever \<^verbatim>\<open>align_images_and_csvs\<close> returns from tidy files, those in
  which the entries of every output folder are well formed and the first field of every
  row is a plain file name, then for every pose class the set of the first fields of its
  CSV rows is the set of the file names of its output folder; and rows and files
  correspond one to one when, in addition, no two rows of the CSV file named the same
  image before.
\<close>

theorem align_names_equal_files:
  assumes "\<forall>c\<in>set classes. tidy (fs c)"
    and "align_images_and_csvs classes fs = Returns fs'"
    and "c \<in> set classes"
  shows "names_equal_files (fs' c) \<and>
         (distinct (names_in_csv (csv (fs c))) \<longrightarrow> strict_bijection (fs' c))"
proof -
  from align_loop_closed_form[OF assms] obtain rows es where
    rows: "csv (fs c) = Some rows" and es: "images_out (fs c) = Some es" and
    fs': "fs' c = (fs c)\<lparr>csv := Some (kept_rows es rows),
                          images_out := Some (kept_files (kept_rows es rows) es)\<rparr>"
    by blast
  have ne: "[] \<notin> set (kept_rows es rows)" by (simp add: kept_rows_def)
  have names: "names_in_csv (Some (kept_rows es rows)) = map hd (kept_rows es rows)"
    by (rule names_in_csv_nonempty[OF ne])
  have "hd ` set (kept_rows es rows) = fst ` set (kept_files (kept_rows es rows) es)"
    by (force simp: kept_rows_def kept_files_def)
  then have eq: "names_equal_files (fs' c)"
    by (simp add: names_equal_files_def fs' names file_names_def)
  from assms(1,3) es have wf: "well_formed es" by (auto simp: tidy_def)
  have "strict_bijection (fs' c)" if d: "distinct (names_in_csv (csv (fs c)))"
  proof -
    from d rows have "distinct (concat (map (take 1) rows))"
      by (simp add: names_in_csv_def)
    then have "distinct (concat (map (take 1) (kept_rows es rows)))"
      unfolding kept_rows_def by (rule distinct_names_filter)
    moreover have "distinct (map fst (kept_files (kept_rows es rows) es))"
      using wf by (simp add: well_formed_def kept_files_def distinct_map_filter)
    ultimately show ?thesis
      using eq ne by (simp add: strict_bijection_def fs' names_in_csv_def file_names_def)
  qed
  with eq show ?thesis by simp
qed

text \<open>The example data set satisfies the hypotheses of C1.\<close>

theorem align_names_equal_files_witness:
  "align_images_and_csvs [''squat''] (dataset squat_before) = Returns (dataset squat_after) \<and>
   names_equal_files (dataset squat_after ''squat'') \<and>
   strict_bijection (dataset squat_after ''squat'')"
proof -
  have t: "\<forall>c\<in>set [''squat'']. tidy (dataset squat_before c)"
    by (simp add: tidy_squat_before dataset_def)
  have d: "distinct (names_in_csv (csv (dataset squat_before ''squat'')))"
    by (simp add: dataset_def squat_before_def no_files_def names_in_csv_def)
  from align_names_equal_files[OF t dataset_aligned, of "''squat''"] d dataset_aligned show ?thesis by simp
qed

text \<open>
  C1 as stated fails: two rows that name the same existing image both survive, so that one
  file has two rows.
\<close>

theorem bijection_counterexample:
  "align_images_and_csvs [''squat''] (dataset squat_twice_listed) = Returns (dataset squat_twice_listed) \<and>
   \<not> strict_bijection (dataset squat_twice_listed ''squat'')"
  by (simp add: dataset_def squat_twice_listed_def no_files_def gray_def align_class_def
     path_exists_def resolve_def os_remove_def strict_bijection_def names_in_csv_def)


text \<open>
  Idempotence on tidy files: when the first field of every row is a plain file name, a
  second call of \<^verbatim>\<open>align_images_and_csvs\<close> ends as the first did, returning or raising the
  same error, and leaves every CSV file and every output folder as the first call left
  them.
\<close>

lemma align_idempotent:
  assumes "\<forall>c\<in>set classes. tidy (fs c)"
  shows "align_twice classes fs = align_images_and_csvs classes fs \<and>
         align_images_and_csvs classes fs \<noteq> Leaves_folders"
  using align_twice_tidy[OF assms] align_modelled[OF assms] by simp

lemma align_idempotent_example:
  "align_twice [''squat''] (dataset squat_before) = Returns (dataset squat_after)"
proof -
  have "\<forall>c\<in>set [''squat'']. tidy (dataset squat_before c)"
    by (simp add: tidy_squat_before dataset_def)
  from align_idempotent[OF this] dataset_aligned show ?thesis by simp
qed

text \<open>
  C2. The code run on the row \<^verbatim>\<open>./b.jpg\<close> beside the file \<^verbatim>\<open>b.jpg\<close>: the first call keeps
  the row, because the joined path exists, and deletes the file, because its name is not
  literally among the kept names; the CSV file and the folder then do not hold the same
  sample, against the docstring, and the second call drops the row, so that two calls do
  not leave what one call leaves.
\<close>

theorem align_dotted_row_evaluated:
  "align_images_and_csvs [''squat''] (dataset squat_dotted) = Returns (dataset squat_dotted_once) \<and>
   \<not> names_equal_files (dataset squat_dotted_once ''squat'') \<and>
   align_twice [''squat''] (dataset squat_dotted) = Returns (dataset squat_empty) \<and>
   csv (dataset squat_dotted_once ''squat'') \<noteq> csv (dataset squat_empty ''squat'')"
  by (simp add: align_twice_def dataset_def squat_dotted_aligned squat_dotted_aligned_again)
     (simp add: squat_dotted_once_def squat_empty_def no_files_def names_equal_files_def
       names_in_csv_def file_names_def)






text \<open>
  C8. However \<^verbatim>\<open>remove_outliers\<close> ends, every CSV file is as it was, so the rows of the
  outliers remain. When it returns, the output image of every outlier is gone; and a
  following \<^verbatim>\<open>align_images_and_csvs\<close> over the class of an outlier, when it returns, leaves
  no row that names the outlier.
\<close>

theorem remove_outliers_leaves_csv:
  "((remove_outliers outliers fs = Returns fs1 \<or> remove_outliers outliers fs = Raises e fs1) \<longrightarrow>
      (\<forall>c. csv (fs1 c) = csv (fs c))) \<and>
   (remove_outliers outliers fs = Returns fs1 \<longrightarrow>
      (\<forall>out\<in>set outliers.
          path_exists (images_out (fs1 (sample_class_name (outlier_sample out))))
            (sample_name (outlier_sample out)) = Some False \<and>
          (\<forall>classes fs2.
              distinct classes \<and> sample_class_name (outlier_sample out) \<in> set classes \<and>
              align_images_and_csvs classes fs1 = Returns fs2 \<longrightarrow>
              sample_name (outlier_sample out) \<notin>
                set (names_in_csv (csv (fs2 (sample_class_name (outlier_sample out))))))))"
proof (intro conjI impI allI ballI)
  fix c
  assume "remove_outliers outliers fs = Returns fs1 \<or> remove_outliers outliers fs = Raises e fs1"
  from remove_outliers_frame[OF this] show "csv (fs1 c) = csv (fs c)" by simp
next
  fix out :: outlier
  assume r: "remove_outliers outliers fs = Returns fs1" and o: "out \<in> set outliers"
  from remove_outliers_deleted[OF r o]
  show "path_exists (images_out (fs1 (sample_class_name (outlier_sample out))))
            (sample_name (outlier_sample out)) = Some False" .
next
  fix out :: outlier and classes fs2
  let ?c = "sample_class_name (outlier_sample out)"
  let ?n = "sample_name (outlier_sample out)"
  assume r: "remove_outliers outliers fs = Returns fs1" and o: "out \<in> set outliers"
    and a: "distinct classes \<and> ?c \<in> set classes \<and> align_images_and_csvs classes fs1 = Returns fs2"
  from remove_outliers_deleted[OF r o] have gone: "path_exists (images_out (fs1 ?c)) ?n = Some False" .
  from a have "align_class (fs1 ?c) = Returns (fs2 ?c)"
    by (auto intro: align_distinct_class)
  from align_class_returns[OF this] obtain rows es where
    es: "images_out (fs1 ?c) = Some es" and
    kept: "csv (fs2 ?c) =
      Some (filter (\<lambda>r. r \<noteq> [] \<and> path_exists (Some es) (hd r) = Some True) rows)"
    by auto
  have "[] \<notin> set (filter (\<lambda>r. r \<noteq> [] \<and> path_exists (Some es) (hd r) = Some True) rows)"
    by simp
  from names_in_csv_nonempty[OF this] kept
  have "set (names_in_csv (csv (fs2 ?c))) \<subseteq> {n. path_exists (Some es) n = Some True}"
    by auto
  with gone es show "?n \<notin> set (names_in_csv (csv (fs2 ?c)))" by auto
qed

text \<open>
  Removing the sample \<^verbatim>\<open>a.jpg\<close> deletes the image and keeps the row; the alignment after it
  drops the row.
\<close>

theorem remove_outliers_leaves_csv_witness:
  "remove_outliers [outlier_of ''a.jpg''] (dataset squat_after) = Returns (dataset squat_removed) \<and>
   csv (dataset squat_removed ''squat'') = Some [[''a.jpg'', ''1'']] \<and>
   path_exists (images_out (dataset squat_removed ''squat'')) ''a.jpg'' = Some False \<and>
   align_images_and_csvs [''squat''] (dataset squat_removed) = Returns (dataset squat_empty) \<and>
   ''a.jpg'' \<notin> set (names_in_csv (csv (dataset squat_empty ''squat'')))"
proof -
  note t = remove_outliers_leaves_csv[of "[outlier_of ''a.jpg'']" "dataset squat_after"
      "dataset squat_removed" undefined]
  from t remove_a_jpg have "csv (dataset squat_removed ''squat'') = csv (dataset squat_after ''squat'')"
    by blast
  then have 1: "csv (dataset squat_removed ''squat'') = Some [[''a.jpg'', ''1'']]"
    by (simp add: dataset_def squat_after_def no_files_def)
  have sel: "sample_class_name (outlier_sample (outlier_of ''a.jpg'')) = ''squat''"
    "sample_name (outlier_sample (outlier_of ''a.jpg'')) = ''a.jpg''"
    by (simp_all add: outlier_of_def)
  have d: "distinct [''squat''] \<and> ''squat'' \<in> set [''squat''] \<and>
      align_images_and_csvs [''squat''] (dataset squat_removed) = Returns (dataset squat_empty)"
    using squat_removed_aligned by simp
  from t remove_a_jpg have
    "path_exists (images_out (dataset squat_removed (sample_class_name (outlier_sample (outlier_of ''a.jpg'')))))
       (sample_name (outlier_sample (outlier_of ''a.jpg''))) = Some False \<and>
     (\<forall>classes fs2.
        distinct classes \<and> sample_class_name (outlier_sample (outlier_of ''a.jpg'')) \<in> set classes \<and>
        align_images_and_csvs classes (dataset squat_removed) = Returns fs2 \<longrightarrow>
        sample_name (outlier_sample (outlier_of ''a.jpg'')) \<notin>
          set (names_in_csv (csv (fs2 (sample_class_name (outlier_sample (outlier_of ''a.jpg'')))))))"
    by simp
  then have 2: "path_exists (images_out (dataset squat_removed ''squat'')) ''a.jpg'' = Some False"
    and 3: "\<forall>classes fs2.
        distinct classes \<and> ''squat'' \<in> set classes \<and>
        align_images_and_csvs classes (dataset squat_removed) = Returns fs2 \<longrightarrow>
        ''a.jpg'' \<notin> set (names_in_csv (csv (fs2 ''squat'')))"
    unfolding sel by blast+
  from 3 d
  have "''a.jpg'' \<notin> set (names_in_csv (csv (dataset squat_empty ''squat'')))" by blast
  with 1 2 remove_a_jpg squat_removed_aligned show ?thesis by simp
qed

text \<open>
  C10. \<^verbatim>\<open>os.remove\<close> is called without a check: when the images of the outliers before
  \<open>out\<close> were deleted and the image of \<open>out\<close> does not exist, the call raises the error of
  \<^verbatim>\<open>os.remove\<close>, with the images of the earlier outliers gone and nothing done for the
  later ones.
\<close>

theorem remove_outliers_not_atomic:
  assumes "remove_outliers earlier fs = Returns fs1"
    and "entry_name (sample_class_name (outlier_sample out))"
    and "resolve (images_out (fs1 (sample_class_name (outlier_sample out))))
           (sample_name (outlier_sample out)) = Absent e"
  shows "remove_outliers (earlier @ out # later) fs = Raises e fs1 \<and>
         (\<forall>b\<in>set earlier.
             path_exists (images_out (fs1 (sample_class_name (outlier_sample b))))
               (sample_name (outlier_sample b)) = Some False)"
proof -
  have "remove_outliers (out # later) fs1 = Raises e fs1"
    using assms(2,3) by (simp add: Let_def os_remove_def)
  with assms(1) have "remove_outliers (earlier @ out # later) fs = Raises e fs1"
    by (simp add: remove_outliers_append)
  with remove_outliers_deleted[OF assms(1)] show ?thesis by simp
qed

text \<open>
  Of three outliers the second has no image: the image of the first is deleted, the image
  of the third is still there.
\<close>

theorem remove_outliers_not_atomic_witness:
  "remove_outliers [outlier_of ''a.jpg'', outlier_of ''gone.jpg'', outlier_of ''b.jpg'']
     (dataset squat_before) = Raises FileNotFoundError (dataset squat_partly_removed) \<and>
   path_exists (images_out (dataset squat_partly_removed ''squat'')) ''a.jpg'' = Some False \<and>
   path_exists (images_out (dataset squat_partly_removed ''squat'')) ''b.jpg'' = Some True"
proof -
  have c: "entry_name (sample_class_name (outlier_sample (outlier_of ''gone.jpg'')))"
    by (simp add: outlier_of_def)
  have g: "resolve (images_out (dataset squat_partly_removed
             (sample_class_name (outlier_sample (outlier_of ''gone.jpg'')))))
           (sample_name (outlier_sample (outlier_of ''gone.jpg''))) = Absent FileNotFoundError"
    by (simp add: outlier_of_def dataset_def squat_partly_removed_def no_files_def resolve_def)
  from remove_outliers_not_atomic[OF remove_a_jpg_before c g, of "[outlier_of ''b.jpg'']"]
  have 1: "remove_outliers ([outlier_of ''a.jpg''] @ outlier_of ''gone.jpg'' # [outlier_of ''b.jpg''])
     (dataset squat_before) = Raises FileNotFoundError (dataset squat_partly_removed)"
    by blast
  have 2: "path_exists (images_out (dataset squat_partly_removed ''squat'')) ''a.jpg'' = Some False"
    "path_exists (images_out (dataset squat_partly_removed ''squat'')) ''b.jpg'' = Some True"
    by (simp_all add: dataset_def squat_partly_removed_def no_files_def path_exists_def resolve_def)
  from 1 2 show ?thesis by (simp del: remove_outliers.simps)
qed

text \<open>
  C3, as amended. With a tracker that returns 33 landmarks whenever it finds a body, and
  however \<^verbatim>\<open>_bootstrap_internal\<close> ends on an image: a row is appended to the CSV file if and
  only if the tracker found a body in the image and OpenCV has an encoder for the name of
  the image, so that line 67 wrote its copy; otherwise the CSV file is as it was. An
  appended row has exactly 100 fields: the image name, then for each of the 33 landmarks
  its x scaled by the width, its y scaled by the height and its z scaled by the width.
\<close>

theorem bootstrap_row_iff_detected:
  assumes "\<forall>f lms. pose_process ext f = Some lms \<longrightarrow> length lms = 33"
    and "bootstrap_internal ext image_name c cf = Returns cf' \<or>
         bootstrap_internal ext image_name c cf = Raises e cf'"
  shows "((\<exists>r. csv cf' = writerow r (csv cf)) \<longleftrightarrow>
            detects ext cf image_name \<and> has_encoder ext image_name) \<and>
         (\<not> (detects ext cf image_name \<and> has_encoder ext image_name) \<longrightarrow> csv cf' = csv cf) \<and>
         (\<forall>r. csv cf' = writerow r (csv cf) \<longrightarrow>
            length r = 100 \<and> hd r = image_name \<and>
            (\<exists>f lms. imread (images_in cf) image_name = Some f \<and>
               pose_process ext (cvtColor f) = Some lms \<and> length lms = 33 \<and>
               (\<forall>i<33. r ! (3 * i + 1) = as_str ext (mul ext (lmk_x (lms ! i)) (frame_width f)) \<and>
                        r ! (3 * i + 2) = as_str ext (mul ext (lmk_y (lms ! i)) (frame_height f)) \<and>
                        r ! (3 * i + 3) = as_str ext (mul ext (lmk_z (lms ! i)) (frame_width f)))))"
proof (cases "imread (images_in cf) image_name")
  case None
  with assms(2) have "cf' = cf" by (auto simp: bootstrap_internal_unreadable)
  with None show ?thesis by (simp add: detects_def)
next
  case (Some f)
  show ?thesis
  proof (cases "has_encoder ext image_name")
    case False
    with assms(2) Some have "cf' = cf" by (auto simp: bootstrap_internal_no_encoder)
    with False show ?thesis by simp
  next
    case enc: True
    show ?thesis
    proof (cases "pose_process ext (cvtColor f)")
      case None
      with assms(2) Some enc have "csv cf' = csv cf" by (auto simp: bootstrap_internal_no_body)
      with Some None show ?thesis by (simp add: detects_def)
    next
      case lms: (Some lms)
      with assms(1) have len: "length lms = 33" by simp
      from bootstrap_internal_body[OF Some enc lms len, of c] assms(2)
      have csv': "csv cf' = writerow (landmark_row ext image_name f lms) (csv cf)"
        by auto
      have d: "detects ext cf image_name" using Some lms by (simp add: detects_def)
      have "length (landmark_row ext image_name f lms) = 100"
        using len by (simp add: landmark_row_length)
      moreover have "\<forall>i<33. landmark_row ext image_name f lms ! (3 * i + 1) =
             as_str ext (mul ext (lmk_x (lms ! i)) (frame_width f)) \<and>
           landmark_row ext image_name f lms ! (3 * i + 2) =
             as_str ext (mul ext (lmk_y (lms ! i)) (frame_height f)) \<and>
           landmark_row ext image_name f lms ! (3 * i + 3) =
             as_str ext (mul ext (lmk_z (lms ! i)) (frame_width f))"
        using landmark_row_nth[of _ lms ext image_name f] len by simp
      ultimately show ?thesis
        using csv' d enc Some lms len by (auto simp: writerow_inject)
    qed
  qed
qed

text \<open>A row of 100 fields for the image with a body, none for the image without.\<close>

theorem bootstrap_row_iff_detected_witness:
  "detects tracker squat_opened ''a.jpg'' \<and> has_encoder tracker ''a.jpg'' \<and>
   csv squat_a_done = writerow (landmark_row tracker ''a.jpg'' gray body) (csv squat_opened) \<and>
   length (landmark_row tracker ''a.jpg'' gray body) = 100 \<and>
   \<not> detects tracker squat_a_done ''b.jpg'' \<and>
   csv squat_bootstrapped = csv squat_a_done"
proof -
  have w: "csv squat_a_done = writerow (landmark_row tracker ''a.jpg'' gray body) (csv squat_opened)"
    by (simp add: squat_a_done_def squat_opened_def writerow_def)
  note a = bootstrap_row_iff_detected[OF tracker_contract, of "''a.jpg''" "''squat''" squat_opened
      squat_a_done undefined]
  from a step_a_jpg w have 1: "detects tracker squat_opened ''a.jpg'' \<and> has_encoder tracker ''a.jpg''"
    by blast
  from a step_a_jpg w have 2: "length (landmark_row tracker ''a.jpg'' gray body) = 100" by blast
  have 3: "\<not> detects tracker squat_a_done ''b.jpg''"
    by (simp add: detects_def squat_a_done_def squat_input_def no_files_def imread_def tracker_def
        blank_def)
  note b = bootstrap_row_iff_detected[OF tracker_contract, of "''b.jpg''" "''squat''" squat_a_done
      squat_bootstrapped undefined]
  from b step_b_jpg 3 have 4: "csv squat_bootstrapped = csv squat_a_done" by blast
  from 1 2 3 4 w show ?thesis by blast
qed

text \<open>
  C3 as stated fails: the tracker finds a body in the image \<^verbatim>\<open>photo\<close>, but \<^verbatim>\<open>cv2.imwrite\<close>
  of line 67 has no encoder for that name and raises before line 79 writes the row.
\<close>

theorem detected_without_row_counterexample:
  "detects tracker squat_odd_names ''photo'' \<and>
   bootstrap_internal tracker ''photo'' ''squat'' squat_odd_names = Raises cv2_error squat_odd_names \<and>
   csv squat_odd_names = Some []"
  by (simp add: odd_reads bootstrap_internal_no_encoder detects_def)
     (simp add: tracker_def gray_def squat_odd_names_def no_files_def)

text \<open>
  C5, as amended. When the image is read and the tracker finds no body in it: if OpenCV
  has an encoder for the name of the image, \<^verbatim>\<open>_bootstrap_internal\<close> returns, the image, with
  its first and third channel exchanged, is written under its name to the output folder
  (when that folder exists, as \<^verbatim>\<open>bootstrap\<close> makes it), and the CSV file is as it was; if
  OpenCV has no encoder for the name, line 67 raises \<^verbatim>\<open>cv2.error\<close> and nothing is written.
\<close>

theorem bootstrap_no_body_no_error:
  assumes "imread (images_in cf) image_name = Some f" and "pose_process ext (cvtColor f) = None"
  shows "(has_encoder ext image_name \<longrightarrow>
            (\<exists>cf'. bootstrap_internal ext image_name c cf = Returns cf' \<and> csv cf' = csv cf \<and>
               images_out cf' = store (images_out cf) image_name (cvtColor f) \<and>
               (\<forall>es. images_out cf = Some es \<longrightarrow>
                    (\<exists>es'. images_out cf' = Some es' \<and>
                           map_of es' image_name = Some (cvtColor f))))) \<and>
         (\<not> has_encoder ext image_name \<longrightarrow>
            bootstrap_internal ext image_name c cf = Raises cv2_error cf)"
  using assms
  by (auto simp: bootstrap_internal_no_body bootstrap_internal_no_encoder store_def update_conv')

text \<open>The image without a body is copied and gets no row.\<close>

theorem bootstrap_no_body_no_error_witness:
  "bootstrap_internal tracker ''b.jpg'' ''squat'' squat_a_done = Returns squat_bootstrapped \<and>
   csv squat_bootstrapped = csv squat_a_done \<and>
   images_out squat_bootstrapped = Some [(''a.jpg'', cvtColor gray), (''b.jpg'', cvtColor blank)] \<and>
   bootstrap_internal tracker ''a.jfif'' ''squat'' squat_odd_names = Raises cv2_error squat_odd_names"
proof -
  have i: "imread (images_in squat_a_done) ''b.jpg'' = Some blank"
    by (simp add: squat_a_done_def squat_input_def no_files_def imread_def)
  have p: "pose_process tracker (cvtColor blank) = None"
    by (simp add: tracker_def blank_def)
  from bootstrap_no_body_no_error[OF i p, of "''squat''"] step_b_jpg
  have 1: "csv squat_bootstrapped = csv squat_a_done" by auto
  from bootstrap_no_body_no_error[OF odd_reads(2) p, of "''squat''"]
  have 2: "bootstrap_internal tracker ''a.jfif'' ''squat'' squat_odd_names =
      Raises cv2_error squat_odd_names"
    by simp
  from 1 2 step_b_jpg show ?thesis by (simp add: squat_bootstrapped_def)
qed

text \<open>
  C5 as stated fails: the tracker finds no body in the image \<^verbatim>\<open>a.jfif\<close>, and the call
  raises, because OpenCV has no encoder for that name; the image is not written.
\<close>

theorem no_body_raises_counterexample:
  "imread (images_in squat_odd_names) ''a.jfif'' = Some blank \<and>
   pose_process tracker (cvtColor blank) = None \<and>
   bootstrap_internal tracker ''a.jfif'' ''squat'' squat_odd_names = Raises cv2_error squat_odd_names \<and>
   images_out squat_odd_names = Some []"
  by (simp add: odd_reads bootstrap_internal_no_encoder)
     (simp add: tracker_def blank_def squat_odd_names_def no_files_def)

text \<open>
  C6, as amended. When the tracker finds a body and the number of its landmarks is not 33,
  no row is written for the image, however the call ends; if OpenCV has an encoder for the
  name of the image, so that line 67 wrote its copy, the assertion fails and the loop over
  the images stops there. With 33 landmarks and an encoder the assertion passes and the
  row is written. Without an encoder for the name the call raises \<^verbatim>\<open>cv2.error\<close> at line 67,
  before the assertion.
\<close>

theorem bootstrap_assertion_failure:
  assumes "imread (images_in cf) image_name = Some f"
    and "pose_process ext (cvtColor f) = Some lms"
  shows "(length lms \<noteq> 33 \<longrightarrow>
            (\<forall>e cf'. bootstrap_internal ext image_name c cf = Returns cf' \<or>
                     bootstrap_internal ext image_name c cf = Raises e cf' \<longrightarrow>
                     csv cf' = csv cf) \<and>
            (has_encoder ext image_name \<longrightarrow>
               bootstrap_internal ext image_name c cf =
                 Raises AssertionError
                   (cf\<lparr>images_out := store (images_out cf) image_name (cvtColor f)\<rparr>) \<and>
               bootstrap_images ext c (image_name # rest) cf =
                 Raises AssertionError
                   (cf\<lparr>images_out := store (images_out cf) image_name (cvtColor f)\<rparr>))) \<and>
         (length lms = 33 \<and> has_encoder ext image_name \<longrightarrow>
            (\<exists>cf'. csv cf' = writerow (landmark_row ext image_name f lms) (csv cf) \<and>
               (bootstrap_internal ext image_name c cf = Returns cf' \<or>
                (\<exists>e. bootstrap_internal ext image_name c cf = Raises e cf')))) \<and>
         (\<not> has_encoder ext image_name \<longrightarrow>
            bootstrap_internal ext image_name c cf = Raises cv2_error cf)"
proof (intro conjI impI allI)
  fix e cf'
  assume n: "length lms \<noteq> 33"
    and o: "bootstrap_internal ext image_name c cf = Returns cf' \<or>
            bootstrap_internal ext image_name c cf = Raises e cf'"
  show "csv cf' = csv cf"
  proof (cases "has_encoder ext image_name")
    case True
    from bootstrap_internal_wrong_shape[OF assms(1) True assms(2) n, of c] o show ?thesis by auto
  next
    case False
    from bootstrap_internal_no_encoder[OF assms(1) False, of c] o show ?thesis by auto
  qed
next
  assume n: "length lms \<noteq> 33" and enc: "has_encoder ext image_name"
  from bootstrap_internal_wrong_shape[OF assms(1) enc assms(2) n]
  show r: "bootstrap_internal ext image_name c cf =
      Raises AssertionError (cf\<lparr>images_out := store (images_out cf) image_name (cvtColor f)\<rparr>)" .
  then show "bootstrap_images ext c (image_name # rest) cf =
      Raises AssertionError (cf\<lparr>images_out := store (images_out cf) image_name (cvtColor f)\<rparr>)"
    by simp
next
  assume "length lms = 33 \<and> has_encoder ext image_name"
  then have len: "length lms = 33" and enc: "has_encoder ext image_name" by simp_all
  from bootstrap_internal_body[OF assms(1) enc assms(2) len, of c]
  show "\<exists>cf'. csv cf' = writerow (landmark_row ext image_name f lms) (csv cf) \<and>
      (bootstrap_internal ext image_name c cf = Returns cf' \<or>
       (\<exists>e. bootstrap_internal ext image_name c cf = Raises e cf'))"
    by blast
next
  assume "\<not> has_encoder ext image_name"
  from bootstrap_internal_no_encoder[OF assms(1) this]
  show "bootstrap_internal ext image_name c cf = Raises cv2_error cf" .
qed

text \<open>
  A tracker that returns one landmark stops the loop at the first image; the tracker with
  33 landmarks gets its row.
\<close>

theorem bootstrap_assertion_failure_witness:
  "bootstrap_images other_tracker ''squat'' [''a.jpg'', ''b.jpg''] squat_opened =
     Raises AssertionError (squat_opened\<lparr>images_out := Some [(''a.jpg'', cvtColor gray)]\<rparr>) \<and>
   csv (squat_opened\<lparr>images_out := Some [(''a.jpg'', cvtColor gray)]\<rparr>) = csv squat_opened \<and>
   bootstrap_internal tracker ''a.jpg'' ''squat'' squat_opened = Returns squat_a_done \<and>
   csv squat_a_done = writerow (landmark_row tracker ''a.jpg'' gray body) (csv squat_opened)"
proof -
  have i: "imread (images_in squat_opened) ''a.jpg'' = Some gray"
    by (simp add: squat_opened_def squat_input_def no_files_def imread_def)
  have p: "pose_process other_tracker (cvtColor gray) = Some [\<lparr>lmk_x = 1, lmk_y = 2, lmk_z = 3\<rparr>]"
    by (simp add: other_tracker_def)
  have q: "pose_process tracker (cvtColor gray) = Some body"
    by (simp add: tracker_def gray_def)
  have o: "store (images_out squat_opened) ''a.jpg'' (cvtColor gray) = Some [(''a.jpg'', cvtColor gray)]"
    by (simp add: squat_opened_def store_def)
  from bootstrap_assertion_failure[OF i p, of "''squat''" "[''b.jpg'']"] o
  have 1: "bootstrap_images other_tracker ''squat'' [''a.jpg'', ''b.jpg''] squat_opened =
     Raises AssertionError (squat_opened\<lparr>images_out := Some [(''a.jpg'', cvtColor gray)]\<rparr>)"
    by simp
  from bootstrap_assertion_failure[OF i q, of "''squat''"] step_a_jpg
  have 2: "csv squat_a_done = writerow (landmark_row tracker ''a.jpg'' gray body) (csv squat_opened)"
    by (auto simp: body_def)
  from 1 2 step_a_jpg show ?thesis by simp
qed

text \<open>
  C6 as stated fails: the other tracker finds a body of one landmark in the image
  \<^verbatim>\<open>photo\<close>, and the call stops with \<^verbatim>\<open>cv2.error\<close> at line 67, not with the assertion of line 77.
\<close>

theorem wrong_shape_other_error_counterexample:
  "imread (images_in squat_odd_names) ''photo'' = Some gray \<and>
   pose_process other_tracker (cvtColor gray) = Some [\<lparr>lmk_x = 1, lmk_y = 2, lmk_z = 3\<rparr>] \<and>
   bootstrap_internal other_tracker ''photo'' ''squat'' squat_odd_names =
     Raises cv2_error squat_odd_names \<and>
   cv2_error \<noteq> AssertionError"
  by (simp add: odd_reads bootstrap_internal_no_encoder)
     (simp add: other_tracker_def)

text \<open>
  C4, as amended. The CSV file that \<^verbatim>\<open>align_images_and_csvs\<close> rewrites holds its surviving
  rows in their original relative order. \<^verbatim>\<open>bootstrap\<close> takes the images of a class in sorted
  order of their names, hidden names left out, and only the first \<open>k\<close> of them when a limit
  \<open>k\<close> that is not negative is given: the rows of the CSV file that it writes name, in that
  order, the images in which a body was found.
\<close>

theorem order_is_kept:
  "(align_images_and_csvs classes fs = Returns fs' \<and> csv (fs c) = Some rows \<longrightarrow>
      (\<exists>rows'. csv (fs' c) = Some rows' \<and> subseq rows' rows)) \<and>
   (bootstrap_class ext limit c cf = Returns cf' \<and> images_in cf = Some ins \<longrightarrow>
      names_in_csv (csv cf') = filter (detects ext cf) (image_names limit (map fst ins))) \<and>
   sorted (image_names limit listing) \<and>
   image_names None listing = sort (filter (\<lambda>n. \<not> startswith_dot n) listing) \<and>
   (0 \<le> k \<longrightarrow>
      image_names (Some k) listing = take (nat k) (sort (filter (\<lambda>n. \<not> startswith_dot n) listing)))"
  using align_csv_subseq[of classes fs fs' c rows]
    bootstrap_class_names_in_csv[of ext limit c cf cf' ins]
    sorted_image_names[of limit listing] image_names_first[of k listing]
  by (simp add: image_names_def)

text \<open>The example: one row survives, and with the limit 1 only the first image is taken.\<close>

theorem order_is_kept_witness:
  "subseq [[''a.jpg'', ''1'']] [[''a.jpg'', ''1''], [], [''gone.jpg'', ''2'']] \<and>
   names_in_csv (csv squat_a_done) = [''a.jpg''] \<and>
   image_names (Some 1) [''b.jpg'', ''.hidden'', ''a.jpg''] = [''a.jpg''] \<and>
   image_names None [''b.jpg'', ''.hidden'', ''a.jpg''] = [''a.jpg'', ''b.jpg'']"
proof -
  note t = order_is_kept[of "[''squat'']" "dataset squat_before" "dataset squat_after" "''squat''"
      "[[''a.jpg'', ''1''], [], [''gone.jpg'', ''2'']]" tracker "Some 1" squat_input squat_a_done
      "[(''b.jpg'', Some blank), (''.hidden'', None), (''a.jpg'', Some gray)]"
      "[''b.jpg'', ''.hidden'', ''a.jpg'']" 1]
  have c: "csv (dataset squat_before ''squat'') = Some [[''a.jpg'', ''1''], [], [''gone.jpg'', ''2'']]"
    "csv (dataset squat_after ''squat'') = Some [[''a.jpg'', ''1'']]"
    by (simp_all add: dataset_def squat_before_def squat_after_def no_files_def)
  from t dataset_aligned c have 1: "subseq [[''a.jpg'', ''1'']] [[''a.jpg'', ''1''], [], [''gone.jpg'', ''2'']]"
    by auto
  have i: "images_in squat_input = Some [(''b.jpg'', Some blank), (''.hidden'', None), (''a.jpg'', Some gray)]"
    by (simp add: squat_input_def no_files_def)
  have d: "filter (detects tracker squat_input) [''a.jpg''] = [''a.jpg'']"
    by (simp add: detects_def squat_input_def no_files_def imread_def tracker_def gray_def)
  have n: "image_names (Some 1) [''b.jpg'', ''.hidden'', ''a.jpg''] = [''a.jpg'']"
    "image_names None [''b.jpg'', ''.hidden'', ''a.jpg''] = [''a.jpg'', ''b.jpg'']"
    by (simp_all add: image_names_def slice_to_def startswith_dot_def)
  from t squat_bootstrap_one i have
    "names_in_csv (csv squat_a_done) =
       filter (detects tracker squat_input)
         (image_names (Some 1) (map fst [(''b.jpg'', Some blank), (''.hidden'', None), (''a.jpg'', Some gray)]))"
    by blast
  with n d have 2: "names_in_csv (csv squat_a_done) = [''a.jpg'']" by simp
  from 1 2 n show ?thesis by simp
qed

text \<open>
  C4 as stated fails for a negative limit: \<^verbatim>\<open>image_names[:-1]\<close> is every name but the last,
  not the first \<open>-1\<close> names, of which there are none.
\<close>

theorem negative_limit_counterexample:
  "image_names (Some (- 1)) [''b.jpg'', ''a.jpg''] = [''a.jpg''] \<and>
   take (nat (- 1)) (image_names None [''b.jpg'', ''a.jpg'']) = []"
  by (simp add: image_names_def slice_to_def startswith_dot_def)

end
